theory Spec2Isabelle
  imports Main "HOL-Library.Word"
begin

section \<open>JavaScript values used by the device authorization flow\<close>

text \<open>
  A value caught by \<^verbatim>\<open>catch (pollError: any)\<close> is read through four properties only:
  \<^verbatim>\<open>error\<close>, \<^verbatim>\<open>error_description\<close>, \<^verbatim>\<open>message\<close> and \<^verbatim>\<open>code\<close>, and through
  \<^verbatim>\<open>instanceof Error\<close>. A property that is \<^verbatim>\<open>undefined\<close> is \<open>None\<close>.
\<close>

record thrown =
  isError :: bool
  e_error :: "string option"
  e_error_description :: "string option"
  e_message :: "string option"
  e_code :: "string option"

text \<open>\<^verbatim>\<open>new Error(msg)\<close>: an Error instance that has a message and nothing else.\<close>

definition new_Error :: "string \<Rightarrow> thrown" where
  "new_Error msg =
     \<lparr>isError = True, e_error = None, e_error_description = None,
      e_message = Some msg, e_code = None\<rparr>"

text \<open>
  What the platform throws (\<^verbatim>\<open>fetch\<close> that fails, \<^verbatim>\<open>response.json()\<close> on a body that
  is not JSON): an Error instance with a message and, for some network failures, a code.
\<close>

definition platform_Error :: "string \<Rightarrow> string option \<Rightarrow> thrown" where
  "platform_Error msg c =
     \<lparr>isError = True, e_error = None, e_error_description = None,
      e_message = Some msg, e_code = c\<rparr>"

text \<open>\<^verbatim>\<open>a || b\<close> on strings that may be undefined: the empty string is falsy.\<close>

definition js_or :: "string option \<Rightarrow> string option \<Rightarrow> string option" where
  "js_or a b = (case a of None \<Rightarrow> b | Some s \<Rightarrow> if s = [] then b else Some s)"

definition js_or_default :: "string option \<Rightarrow> string \<Rightarrow> string" where
  "js_or_default a d = (case a of None \<Rightarrow> d | Some s \<Rightarrow> if s = [] then d else s)"

text \<open>\<^verbatim>\<open>s.includes(sub)\<close>: \<open>sub\<close> occurs in \<open>s\<close> as a contiguous run.\<close>

fun str_includes :: "string \<Rightarrow> string \<Rightarrow> bool" where
  "str_includes [] sub = (sub = [])"
| "str_includes (c # cs) sub = (take (length sub) (c # cs) = sub \<or> str_includes cs sub)"

text \<open>\<^verbatim>\<open>x?.message?.includes(sub)\<close>: undefined (falsy) when there is no message.\<close>

definition message_includes :: "thrown \<Rightarrow> string \<Rightarrow> bool" where
  "message_includes e sub = (case e_message e of None \<Rightarrow> False | Some m \<Rightarrow> str_includes m sub)"

text \<open>\<^verbatim>\<open>String(e)\<close> for a caught value that is not an Error: a plain object.\<close>

definition js_String :: "thrown \<Rightarrow> string" where
  "js_String e = ''[object Object]''"

text \<open>\<^verbatim>\<open>error instanceof Error ? error.message : String(error)\<close>\<close>

definition message_of :: "thrown \<Rightarrow> string" where
  "message_of e =
     (if isError e then (case e_message e of Some m \<Rightarrow> m | None \<Rightarrow> []) else js_String e)"

text \<open>A number in a template literal: its decimal digits.\<close>

fun decimal :: "nat \<Rightarrow> string" where
  "decimal n =
     (if n < 10 then [''0123456789'' ! n]
      else decimal (n div 10) @ [''0123456789'' ! (n mod 10)])"

declare decimal.simps [simp del]

section \<open>JavaScript numbers\<close>

text \<open>
  The numbers the flow computes with are the integer-valued doubles and the two
  infinities (\<^verbatim>\<open>JSON.parse\<close> gives an infinity for a literal beyond the range). Every
  sum and product is the exact result rounded to the nearest double, ties to even: an
  integer below \<open>2^53\<close> in magnitude is kept, a larger one keeps its 53 leading bits,
  and a rounded magnitude of \<open>2^1024\<close> or more is an infinity. Fractions are not
  modelled: the interfaces give seconds, and the clock gives milliseconds.
\<close>

datatype number = Num int | PosInfinity | NegInfinity

text \<open>The number of binary digits of a natural number.\<close>

fun bitlen :: "nat \<Rightarrow> nat" where
  "bitlen n = (if n = 0 then 0 else Suc (bitlen (n div 2)))"

declare bitlen.simps [simp del]

definition round53 :: "nat \<Rightarrow> nat" where
  "round53 m =
     (if m < 2 ^ 53 then m
      else (let q = 2 ^ (bitlen m - 53); k = m div q; r = m mod q
            in if 2 * r < q \<or> (2 * r = q \<and> even k) then k * q else (k + 1) * q))"

definition double_limit :: nat where
  "double_limit = 2 ^ 1024"

definition to_number :: "int \<Rightarrow> number" where
  "to_number x =
     (let m = round53 (nat \<bar>x\<bar>)
      in if double_limit \<le> m then (if x < 0 then NegInfinity else PosInfinity)
         else Num (if x < 0 then - int m else int m))"

text \<open>
  \<^verbatim>\<open>x + n\<close> and \<^verbatim>\<open>n + x\<close> for an integer \<open>n\<close> (the literal 5, the clock), and
  \<^verbatim>\<open>x * 1000\<close>.
\<close>

fun js_plus :: "number \<Rightarrow> int \<Rightarrow> number" where
  "js_plus (Num a) n = to_number (a + n)"
| "js_plus PosInfinity n = PosInfinity"
| "js_plus NegInfinity n = NegInfinity"

fun js_times1000 :: "number \<Rightarrow> number" where
  "js_times1000 (Num a) = to_number (a * 1000)"
| "js_times1000 PosInfinity = PosInfinity"
| "js_times1000 NegInfinity = NegInfinity"

text \<open>\<^verbatim>\<open>a > b\<close>\<close>

fun js_gt :: "number \<Rightarrow> number \<Rightarrow> bool" where
  "js_gt (Num a) (Num b) = (a > b)"
| "js_gt PosInfinity b = (b \<noteq> PosInfinity)"
| "js_gt a NegInfinity = (a \<noteq> NegInfinity)"
| "js_gt (Num a) PosInfinity = False"
| "js_gt NegInfinity b = False"

text \<open>The value is one a JavaScript number can have: rounding keeps it.\<close>

fun is_number :: "number \<Rightarrow> bool" where
  "is_number (Num a) = (to_number a = Num a)"
| "is_number PosInfinity = True"
| "is_number NegInfinity = True"

declare is_number.simps(1) [simp del]

text \<open>
  A parsed JSON object: its string and number members. The TypeScript declarations say
  at which type a member is read; a member that is absent or of another type reads as
  undefined.
\<close>

datatype json = JString string | JNumber number

type_synonym json_obj = "string \<rightharpoonup> json"

definition str_member :: "json_obj \<Rightarrow> string \<Rightarrow> string option" where
  "str_member j k = (case j k of Some (JString s) \<Rightarrow> Some s | _ \<Rightarrow> None)"

definition num_member :: "json_obj \<Rightarrow> string \<Rightarrow> number option" where
  "num_member j k = (case j k of Some (JNumber n) \<Rightarrow> Some n | _ \<Rightarrow> None)"

text \<open>A plain object that is thrown, as the catch block of the dialog reads it.\<close>

definition as_thrown :: "json_obj \<Rightarrow> thrown" where
  "as_thrown j =
     \<lparr>isError = False, e_error = str_member j ''error'',
      e_error_description = str_member j ''error_description'',
      e_message = str_member j ''message'', e_code = str_member j ''code''\<rparr>"

section \<open>Proof key: \<^verbatim>\<open>generateCodeVerifier\<close> and \<^verbatim>\<open>generateCodeChallenge\<close>\<close>

text \<open>
  The six-bit groups of a byte sequence, block by block of three bytes; the last block
  may have one or two bytes, and then two or three groups.
\<close>

fun sextets :: "nat list \<Rightarrow> nat list list" where
  "sextets [] = []"
| "sextets [a] = [[a div 4, a mod 4 * 16]]"
| "sextets [a, b] = [[a div 4, a mod 4 * 16 + b div 16, b mod 16 * 4]]"
| "sextets (a # b # c # rest) =
     [a div 4, a mod 4 * 16 + b div 16, b mod 16 * 4 + c div 64, c mod 64] # sextets rest"

definition b64_alphabet :: string where
  "b64_alphabet = ''ABCDEFGHIJKLMNOPQRSTUVWXYZabcdefghijklmnopqrstuvwxyz0123456789+/''"

text \<open>
  \<^verbatim>\<open>btoa\<close> of the platform: standard base64 of the character codes, each block padded
  to four characters with \<^verbatim>\<open>=\<close>.
\<close>

definition btoa :: "string \<Rightarrow> string" where
  "btoa s =
     concat (map (\<lambda>g. map (\<lambda>i. b64_alphabet ! i) g @ replicate (4 - length g) CHR ''='')
               (sextets (map of_char s)))"

text \<open>\<^verbatim>\<open>String.fromCharCode(...array)\<close> of a \<^verbatim>\<open>Uint8Array\<close>\<close>

definition fromCharCode :: "8 word list \<Rightarrow> string" where
  "fromCharCode array = map (\<lambda>b. char_of (unat b)) array"

text \<open>\<^verbatim>\<open>.replace(/c/g, d)\<close> and \<^verbatim>\<open>.replace(/c/g, '')\<close> for a single character.\<close>

definition replace_all :: "char \<Rightarrow> char \<Rightarrow> string \<Rightarrow> string" where
  "replace_all c d s = map (\<lambda>x. if x = c then d else x) s"

definition remove_all :: "char \<Rightarrow> string \<Rightarrow> string" where
  "remove_all c s = filter (\<lambda>x. x \<noteq> c) s"

text \<open>
  \<^verbatim>\<open>generateCodeVerifier\<close>; \<open>random\<close> is what \<^verbatim>\<open>crypto.getRandomValues\<close> put into the
  32 bytes of the array.
\<close>

definition generateCodeVerifier :: "8 word list \<Rightarrow> string" where
  "generateCodeVerifier random =
     remove_all CHR ''='' (replace_all CHR ''/'' CHR ''_'' (replace_all CHR ''+'' CHR ''-''
       (btoa (fromCharCode random))))"

text \<open>
  \<^verbatim>\<open>new TextEncoder().encode(s)\<close> for a string whose code units are below 256: UTF-8,
  one byte below 128 and two bytes from there on.
\<close>

definition encode :: "string \<Rightarrow> 8 word list" where
  "encode s =
     concat (map (\<lambda>c. let n = (of_char c :: nat) in
                        if n < 128 then [word_of_nat n]
                        else [word_of_nat (192 + n div 64), word_of_nat (128 + n mod 64)]) s)"

text \<open>
  \<^verbatim>\<open>generateCodeChallenge\<close>; \<open>digest\<close> stands for
  \<^verbatim>\<open>crypto.subtle.digest('SHA-256', _)\<close> of the platform.
\<close>

definition generateCodeChallenge :: "(8 word list \<Rightarrow> 8 word list) \<Rightarrow> string \<Rightarrow> string" where
  "generateCodeChallenge digest verifier =
     remove_all CHR ''='' (replace_all CHR ''/'' CHR ''_'' (replace_all CHR ''+'' CHR ''-''
       (btoa (fromCharCode (digest (encode verifier))))))"

text \<open>
  The base64url encoding without padding, written down directly: the URL-safe alphabet
  on the six-bit groups.
\<close>

definition b64url_alphabet :: string where
  "b64url_alphabet = ''ABCDEFGHIJKLMNOPQRSTUVWXYZabcdefghijklmnopqrstuvwxyz0123456789-_''"

definition base64url :: "8 word list \<Rightarrow> string" where
  "base64url bytes = concat (map (map (\<lambda>i. b64url_alphabet ! i)) (sextets (map unat bytes)))"

section \<open>The two operations of \<^verbatim>\<open>qwen_oauth_handlers.ts\<close>\<close>

definition QWEN_DEVICE_CODE_URL :: string where
  "QWEN_DEVICE_CODE_URL = ''https://chat.qwen.ai/api/v1/oauth2/device/code''"

definition QWEN_TOKEN_URL :: string where
  "QWEN_TOKEN_URL = ''https://chat.qwen.ai/api/v1/oauth2/token''"

definition QWEN_CLIENT_ID :: string where
  "QWEN_CLIENT_ID = ''f0304373b74a44d2b584a3fb70ca9e56''"

definition QWEN_SCOPE :: string where
  "QWEN_SCOPE = ''openid profile email model.completion''"

text \<open>The argument of \<^verbatim>\<open>fetch\<close>; the body is the list given to \<^verbatim>\<open>URLSearchParams\<close>.\<close>

record request =
  url :: string
  http_method :: string
  content_type :: string
  body :: "(string \<times> string) list"

text \<open>
  What \<^verbatim>\<open>fetch\<close> gives back: it throws (message and code of the error), or there is a
  response with its status, its status text, and the outcome of \<^verbatim>\<open>response.json()\<close>
  (the message of the error it throws on a body that is not JSON, or the parsed object).
\<close>

datatype fetched = Fetch_failed string "string option" | Response nat string "string + json_obj"

text \<open>\<^verbatim>\<open>response.ok\<close>: the status is in the range 200 to 299.\<close>

definition ok :: "nat \<Rightarrow> bool" where
  "ok status \<longleftrightarrow> 200 \<le> status \<and> status \<le> 299"

text \<open>The fields that the interface \<^verbatim>\<open>QwenDeviceCodeResponse\<close> declares.\<close>

definition QwenDeviceCodeResponse :: "string list" where
  "QwenDeviceCodeResponse =
     [''device_code'', ''user_code'', ''verification_uri'', ''verification_uri_complete'',
      ''expires_in'', ''interval'']"

definition deviceCodeRequest :: "(8 word list \<Rightarrow> 8 word list) \<Rightarrow> 8 word list \<Rightarrow> request" where
  "deviceCodeRequest digest random =
     (let codeVerifier = generateCodeVerifier random;
          codeChallenge = generateCodeChallenge digest codeVerifier
      in \<lparr>url = QWEN_DEVICE_CODE_URL, http_method = ''POST'',
           content_type = ''application/x-www-form-urlencoded'',
           body = [(''client_id'', QWEN_CLIENT_ID), (''scope'', QWEN_SCOPE),
                   (''code_challenge'', codeChallenge),
                   (''code_challenge_method'', ''S256'')]\<rparr>)"

text \<open>The catch block of the device-code handler: every failure is wrapped.\<close>

definition deviceCodeCatch :: "thrown \<Rightarrow> thrown" where
  "deviceCodeCatch e = new_Error (''Failed to get Qwen device code: '' @ message_of e)"

text \<open>
  The handler of \<^verbatim>\<open>qwen-oauth:device-code\<close>, given what its request is answered with.
  The result is the object \<^verbatim>\<open>{...data, code_verifier: codeVerifier}\<close>: the members of
  \<open>data\<close>, with \<^verbatim>\<open>code_verifier\<close> set last.
\<close>

definition deviceCodeHandler :: "8 word list \<Rightarrow> fetched \<Rightarrow> thrown + json_obj" where
  "deviceCodeHandler random response =
     (let codeVerifier = generateCodeVerifier random
      in case response of
           Fetch_failed msg c \<Rightarrow> Inl (deviceCodeCatch (platform_Error msg c))
         | Response status statusText js \<Rightarrow>
             if \<not> ok status then
               Inl (deviceCodeCatch
                      (new_Error (''Device code request failed: '' @ decimal status @ '' '' @
                                  statusText)))
             else (case js of
                     Inl msg \<Rightarrow> Inl (deviceCodeCatch (platform_Error msg None))
                   | Inr data \<Rightarrow> Inr (data(''code_verifier'' \<mapsto> JString codeVerifier))))"

definition tokenRequest :: "string \<Rightarrow> string \<Rightarrow> request" where
  "tokenRequest dCode cVerifier =
     \<lparr>url = QWEN_TOKEN_URL, http_method = ''POST'',
      content_type = ''application/x-www-form-urlencoded'',
      body = [(''grant_type'', ''urn:ietf:params:oauth:grant-type:device_code''),
              (''client_id'', QWEN_CLIENT_ID), (''device_code'', dCode),
              (''code_verifier'', cVerifier)]\<rparr>"

text \<open>
  The handler of \<^verbatim>\<open>qwen-oauth:token\<close>, given what its request is answered with: \<open>Inl\<close>
  is the value it throws (its catch block logs and throws again), \<open>Inr\<close> the parsed body
  it returns.
\<close>

definition tokenHandler :: "fetched \<Rightarrow> thrown + json_obj" where
  "tokenHandler response =
     (case response of
        Fetch_failed msg c \<Rightarrow> Inl (platform_Error msg c)
      | Response status statusText js \<Rightarrow>
          if \<not> ok status then
            (if status = 400 then
               (case js of
                  Inl msg \<Rightarrow> Inl (platform_Error msg None)
                | Inr errorData \<Rightarrow> Inl (as_thrown errorData))
             else Inl (new_Error (''Token request failed: '' @ decimal status @ '' '' @
                                  statusText)))
          else (case js of Inl msg \<Rightarrow> Inl (platform_Error msg None) | Inr data \<Rightarrow> Inr data))"

text \<open>The results as the dialog reads them, at the types of the interfaces.\<close>

record device_code_result =
  device_code :: string
  user_code :: string
  verification_uri :: string
  verification_uri_complete :: string
  expires_in :: number
  interval :: number
  code_verifier :: string

definition str_or_empty :: "json_obj \<Rightarrow> string \<Rightarrow> string" where
  "str_or_empty j k = (case str_member j k of Some s \<Rightarrow> s | None \<Rightarrow> [])"

definition num_or_zero :: "json_obj \<Rightarrow> string \<Rightarrow> number" where
  "num_or_zero j k = (case num_member j k of Some n \<Rightarrow> n | None \<Rightarrow> Num 0)"

definition as_device_code_result :: "json_obj \<Rightarrow> device_code_result" where
  "as_device_code_result j =
     \<lparr>device_code = str_or_empty j ''device_code'', user_code = str_or_empty j ''user_code'',
      verification_uri = str_or_empty j ''verification_uri'',
      verification_uri_complete = str_or_empty j ''verification_uri_complete'',
      expires_in = num_or_zero j ''expires_in'', interval = num_or_zero j ''interval'',
      code_verifier = str_or_empty j ''code_verifier''\<rparr>"

section \<open>The dialog component \<^verbatim>\<open>QwenOAuthDialog\<close>, revision with the expiry test\<close>

datatype step = Step_device_code | Step_polling | Step_success | Step_error

text \<open>
  The cells of \<^verbatim>\<open>useState\<close>, with the names of the component. The component function
  runs once per render: \<^verbatim>\<open>const [deviceCodeExpiry, setDeviceCodeExpiry] = useState(0)\<close>
  binds the value the cell has in that render, and the functions defined in the body
  (\<^verbatim>\<open>startOAuthFlow\<close>, \<^verbatim>\<open>pollForToken\<close>) close over these bindings. A setter changes the
  cell for the renders that follow; it does not change what a function of an earlier
  render reads.
\<close>

record dialog =
  step :: step
  deviceCode :: string
  verificationUrl :: string
  userCode :: string
  error :: string
  isLoading :: bool
  pollingStartTime :: number
  deviceCodeExpiry :: number

definition initial_dialog :: dialog where
  "initial_dialog =
     \<lparr>step = Step_device_code, deviceCode = [], verificationUrl = [], userCode = [],
      error = [], isLoading = False, pollingStartTime = Num 0, deviceCodeExpiry = Num 0\<rparr>"

record QwenTokenResponse =
  access_token :: string
  refresh_token :: "string option"
  token_type :: string
  tok_expires_in :: number
  scope :: string
  resource_url :: "string option"

text \<open>
  The argument of \<^verbatim>\<open>updateSettings\<close>; the two tokens are passed as \<^verbatim>\<open>{ value: ... }\<close>,
  and the record holds the strings.
\<close>

record settings_update =
  qwenAccessToken :: string
  qwenRefreshToken :: string
  qwenTokenExpiry :: number
  qwenResourceUrl :: string

text \<open>The argument of \<^verbatim>\<open>qwenOAuthToken\<close>.\<close>

record token_params =
  p_deviceCode :: string
  p_codeVerifier :: string

text \<open>
  \<^verbatim>\<open>setTimeout(() => pollForToken(d, c, i), delay)\<close>. The callback is a closure: the
  \<^verbatim>\<open>pollForToken\<close> it calls belongs to the render in which the callback was created, and
  reads the state cells as that render saw them (\<open>t_env\<close>), whatever has been set since.
\<close>

record timer =
  t_env :: dialog
  t_deviceCode :: string
  t_codeVerifier :: string
  t_interval :: number
  t_delay :: number

text \<open>
  Everything the component acts on: its state cells, the calls of \<^verbatim>\<open>updateSettings\<close>
  and of the token operation so far, the timers that are pending, the toasts shown.
\<close>

record world =
  ui :: dialog
  stored :: "settings_update list"
  requests :: "token_params list"
  pending :: "timer list"
  toasts :: "string list"

definition initial_world :: world where
  "initial_world =
     \<lparr>ui = initial_dialog, stored = [], requests = [], pending = [], toasts = []\<rparr>"

text \<open>
  What the environment contributes to one call of \<^verbatim>\<open>pollForToken\<close>: the clock at
  entry, the outcome of the token operation (a rejection or a token response), the clock
  when the expiry of the token is computed, and whether \<^verbatim>\<open>updateSettings\<close> throws.
\<close>

record poll_event =
  now :: int
  token :: "thrown + QwenTokenResponse"
  now_stored :: int
  persist :: "thrown option"

text \<open>
  The value that reaches the catch block of \<^verbatim>\<open>pollForToken\<close>, if any: the rejection of
  the token operation, or what \<^verbatim>\<open>updateSettings\<close> throws after a token response.
\<close>

definition caught :: "poll_event \<Rightarrow> thrown option" where
  "caught ev = (case token ev of Inl e \<Rightarrow> Some e | Inr _ \<Rightarrow> persist ev)"

definition setError :: "string \<Rightarrow> world \<Rightarrow> world" where
  "setError msg w = w\<lparr>ui := (ui w)\<lparr>error := msg\<rparr>\<rparr>"

definition setStep :: "step \<Rightarrow> world \<Rightarrow> world" where
  "setStep s w = w\<lparr>ui := (ui w)\<lparr>step := s\<rparr>\<rparr>"

definition showSuccess :: "string \<Rightarrow> world \<Rightarrow> world" where
  "showSuccess msg w = w\<lparr>toasts := toasts w @ [msg]\<rparr>"

text \<open>The two calls out of the component: each is recorded with its argument.\<close>

definition qwenOAuthToken :: "string \<Rightarrow> string \<Rightarrow> world \<Rightarrow> world" where
  "qwenOAuthToken dCode cVerifier w =
     w\<lparr>requests := requests w @ [\<lparr>p_deviceCode = dCode, p_codeVerifier = cVerifier\<rparr>]\<rparr>"

definition updateSettings :: "settings_update \<Rightarrow> world \<Rightarrow> world" where
  "updateSettings u w = w\<lparr>stored := stored w @ [u]\<rparr>"

definition setTimeout :: "timer \<Rightarrow> world \<Rightarrow> world" where
  "setTimeout t w = w\<lparr>pending := pending w @ [t]\<rparr>"

text \<open>The test of the last \<^verbatim>\<open>else\<close> of the catch block: a network or server error.\<close>

definition isTransient :: "thrown \<Rightarrow> bool" where
  "isTransient e \<longleftrightarrow>
     message_includes e ''fetch'' \<or> message_includes e ''network'' \<or>
     e_code e = Some ''ECONNRESET''"

text \<open>
  \<^verbatim>\<open>setTimeout(() => pollForToken(deviceCode, codeVerifier, j), j * 1000)\<close> as the catch
  block writes it, for \<open>j\<close> the interval or \<^verbatim>\<open>interval + 5\<close>.
\<close>

definition repoll :: "dialog \<Rightarrow> string \<Rightarrow> string \<Rightarrow> number \<Rightarrow> timer" where
  "repoll env dCode cVerifier j =
     \<lparr>t_env = env, t_deviceCode = dCode, t_codeVerifier = cVerifier,
      t_interval = j, t_delay = js_times1000 j\<rparr>"

text \<open>The catch block of \<^verbatim>\<open>pollForToken\<close>, in the order of its branches.\<close>

definition pollCatch :: "dialog \<Rightarrow> string \<Rightarrow> string \<Rightarrow> number \<Rightarrow> thrown \<Rightarrow> world \<Rightarrow> world" where
  "pollCatch env dCode cVerifier ival pollError w =
     (if e_error pollError = Some ''authorization_pending'' then
        setTimeout (repoll env dCode cVerifier ival) w
      else if e_error pollError = Some ''slow_down'' then
        setTimeout (repoll env dCode cVerifier (js_plus ival 5)) w
      else if e_error pollError = Some ''access_denied'' then
        setStep Step_error (setError ''Authentication was denied. Please try again.'' w)
      else if e_error pollError = Some ''expired_token'' then
        setStep Step_error
          (setError ''The authentication code has expired. Please try again.'' w)
      else if isTransient pollError then
        setTimeout (repoll env dCode cVerifier ival) w
      else
        setStep Step_error
          (setError
             (js_or_default
                (js_or (e_error_description pollError)
                   (js_or (e_error pollError) (e_message pollError)))
                ''Authentication failed'') w))"

text \<open>The errors on which the catch block sets a timer, by its branches.\<close>

definition continuing :: "thrown \<Rightarrow> bool" where
  "continuing e \<longleftrightarrow>
     e_error e = Some ''authorization_pending'' \<or> e_error e = Some ''slow_down'' \<or>
     (e_error e \<noteq> Some ''access_denied'' \<and> e_error e \<noteq> Some ''expired_token'' \<and>
      isTransient e)"

definition timed_out_message :: string where
  "timed_out_message =
     ''Authentication timed out. The device code has expired. Please try again.''"

text \<open>
  \<^verbatim>\<open>pollForToken\<close>. \<open>env\<close> holds the state cells as the closure sees them; the
  function reads \<open>deviceCodeExpiry\<close> there. The logging calls are left out.
\<close>

definition pollForToken :: "dialog \<Rightarrow> string \<Rightarrow> string \<Rightarrow> number \<Rightarrow> poll_event \<Rightarrow> world \<Rightarrow> world" where
  "pollForToken env dCode cVerifier ival ev w =
     (if js_gt (Num (now ev)) (deviceCodeExpiry env) then
        setStep Step_error (setError timed_out_message w)
      else
        (let w1 = qwenOAuthToken dCode cVerifier w
         in (case token ev of
               Inl pollError \<Rightarrow> pollCatch env dCode cVerifier ival pollError w1
             | Inr result \<Rightarrow>
                 (let w2 = updateSettings
                             \<lparr>qwenAccessToken = access_token result,
                              qwenRefreshToken = js_or_default (refresh_token result) [],
                              qwenTokenExpiry =
                                js_plus (js_times1000 (tok_expires_in result)) (now_stored ev),
                              qwenResourceUrl = js_or_default (resource_url result)
                                 ''https://dashscope.aliyuncs.com/api/v1/''\<rparr> w1
                  in (case persist ev of
                        Some pollError \<Rightarrow> pollCatch env dCode cVerifier ival pollError w2
                      | None \<Rightarrow>
                          showSuccess
                            ''Qwen authentication successful! Pro features are now enabled.''
                            (setStep Step_success w2))))))"

text \<open>
  What the environment contributes to one call of \<^verbatim>\<open>startOAuthFlow\<close>: the outcome of
  the device-code operation, the clock when the expiry is set, whether
  \<^verbatim>\<open>openExternalUrl\<close> throws, and the clock when the polling start time is set.
\<close>

record start_event =
  device :: "thrown + device_code_result"
  now_expiry :: int
  opened :: "thrown option"
  now_polling :: int

text \<open>The catch block of \<^verbatim>\<open>startOAuthFlow\<close>.\<close>

definition startCatch :: "thrown \<Rightarrow> world \<Rightarrow> world" where
  "startCatch err w =
     setStep Step_error
       (setError (if isError err then (case e_message err of Some m \<Rightarrow> m | None \<Rightarrow> [])
                  else ''Failed to start authentication'') w)"

text \<open>
  \<^verbatim>\<open>startOAuthFlow\<close>. \<open>env\<close> holds the state cells of the render whose button was
  clicked. The setters write the cells of the component (\<open>ui\<close>); the timer keeps \<open>env\<close>,
  because the \<^verbatim>\<open>pollForToken\<close> it will call is the one of that same render. The last
  update is the \<^verbatim>\<open>finally\<close> block.
\<close>

definition startOAuthFlow :: "dialog \<Rightarrow> start_event \<Rightarrow> world \<Rightarrow> world" where
  "startOAuthFlow env ev w =
     (let w0 = w\<lparr>ui := (ui w)\<lparr>isLoading := True, error := [],
                               deviceCodeExpiry := Num 0\<rparr>\<rparr>;
          w' = (case device ev of
                  Inl err \<Rightarrow> startCatch err w0
                | Inr result \<Rightarrow>
                    (let w1 = w0\<lparr>ui := (ui w0)
                                \<lparr>deviceCode := device_code result,
                                 userCode := user_code result,
                                 verificationUrl := verification_uri_complete result,
                                 deviceCodeExpiry :=
                                   js_plus (js_times1000 (expires_in result))
                                     (now_expiry ev)\<rparr>\<rparr>
                     in (case opened ev of
                           Some err \<Rightarrow> startCatch err w1
                         | None \<Rightarrow>
                             setTimeout
                               \<lparr>t_env = env, t_deviceCode = device_code result,
                                t_codeVerifier = code_verifier result,
                                t_interval = (if interval result = Num 0 then Num 5
                                              else interval result),
                                t_delay = Num 3000\<rparr>
                               (w1\<lparr>ui := (ui w1)\<lparr>step := Step_polling,
                                                   pollingStartTime := Num (now_polling ev)\<rparr>\<rparr>))))
      in w'\<lparr>ui := (ui w')\<lparr>isLoading := False\<rparr>\<rparr>)"

text \<open>
  The user clicks the start button: the handler of the render on screen runs, and that
  render shows the cells as they are now.
\<close>

definition clickStart :: "start_event \<Rightarrow> world \<Rightarrow> world" where
  "clickStart ev w = startOAuthFlow (ui w) ev w"

text \<open>The button \<^verbatim>\<open>Try Again\<close>: \<^verbatim>\<open>setStep('device-code')\<close>.\<close>

definition clickTryAgain :: "world \<Rightarrow> world" where
  "clickTryAgain w = setStep Step_device_code w"

text \<open>
  The \<open>k\<close>-th pending timer fires: it leaves the list, and its callback runs
  \<^verbatim>\<open>pollForToken\<close> with the arguments and the cells it closed over.
\<close>

definition fire :: "nat \<Rightarrow> poll_event \<Rightarrow> world \<Rightarrow> world" where
  "fire k ev w =
     (if k < length (pending w) then
        let t = pending w ! k
        in pollForToken (t_env t) (t_deviceCode t) (t_codeVerifier t) (t_interval t) ev
             (w\<lparr>pending := take k (pending w) @ drop (Suc k) (pending w)\<rparr>)
      else w)"

text \<open>A flow with a single chain of polls: the timer that fires is the only one.\<close>

fun polls :: "poll_event list \<Rightarrow> world \<Rightarrow> world" where
  "polls [] w = w"
| "polls (ev # evs) w = polls evs (fire 0 ev w)"

section \<open>The dialog component, revision of \<^verbatim>\<open>src/components/QwenOAuthDialog.tsx\<close>\<close>

text \<open>
  The file \<^verbatim>\<open>src/components/QwenOAuthDialog.tsx\<close> holds a shorter revision of the same
  component: it has neither the two time cells nor the expiry test, its catch block has
  three branches, and it stores the tokens as plain strings. Its \<^verbatim>\<open>pollForToken\<close>:
\<close>

definition pollCatch0 :: "dialog \<Rightarrow> string \<Rightarrow> string \<Rightarrow> number \<Rightarrow> thrown \<Rightarrow> world \<Rightarrow> world" where
  "pollCatch0 env dCode cVerifier ival pollError w =
     (if e_error pollError = Some ''authorization_pending'' then
        setTimeout (repoll env dCode cVerifier ival) w
      else if e_error pollError = Some ''slow_down'' then
        setTimeout (repoll env dCode cVerifier (js_plus ival 5)) w
      else
        setStep Step_error
          (setError
             (js_or_default (js_or (e_error_description pollError) (e_error pollError))
                ''Authentication failed'') w))"

definition pollForToken0 :: "dialog \<Rightarrow> string \<Rightarrow> string \<Rightarrow> number \<Rightarrow> poll_event \<Rightarrow> world \<Rightarrow> world" where
  "pollForToken0 env dCode cVerifier ival ev w =
     (let w1 = qwenOAuthToken dCode cVerifier w
      in (case token ev of
            Inl pollError \<Rightarrow> pollCatch0 env dCode cVerifier ival pollError w1
          | Inr result \<Rightarrow>
              (let w2 = updateSettings
                          \<lparr>qwenAccessToken = access_token result,
                           qwenRefreshToken = js_or_default (refresh_token result) [],
                           qwenTokenExpiry =
                                js_plus (js_times1000 (tok_expires_in result)) (now_stored ev),
                           qwenResourceUrl = js_or_default (resource_url result)
                              ''https://dashscope.aliyuncs.com/api/v1/''\<rparr> w1
               in (case persist ev of
                     Some pollError \<Rightarrow> pollCatch0 env dCode cVerifier ival pollError w2
                   | None \<Rightarrow>
                       showSuccess
                         ''Qwen authentication successful! Pro features are now enabled.''
                         (setStep Step_success w2)))))"

section \<open>Action Validator: the path check\<close>

text \<open>
  Modelled from the spec: the Action Validator is not among the sources. Its check (c)
  reads: for any path-bearing action, resolving the path against the project root must
  not escape the root (reject on \<^verbatim>\<open>..\<close> traversal or absolute paths outside root).
  A path is a string with \<^verbatim>\<open>/\<close> between its segments; it is absolute when it starts
  with \<^verbatim>\<open>/\<close>.
\<close>

fun split_path :: "string \<Rightarrow> string list" where
  "split_path [] = [[]]"
| "split_path (c # cs) =
     (if c = CHR ''/'' then [] # split_path cs
      else (case split_path cs of [] \<Rightarrow> [[c]] | s # ss \<Rightarrow> (c # s) # ss))"

definition is_absolute :: "string \<Rightarrow> bool" where
  "is_absolute p \<longleftrightarrow> (case p of [] \<Rightarrow> False | c # _ \<Rightarrow> c = CHR ''/'')"

text \<open>
  Modelled from the spec: resolving a path against the project root. Resolution walks the
  segments with the directories entered so far (innermost first): an empty segment and
  \<^verbatim>\<open>.\<close> stay, \<^verbatim>\<open>..\<close> leaves the innermost directory (and stays at the top), any
  other segment enters. A relative path starts from the root, an absolute one from the
  top.
\<close>

fun walk :: "string list \<Rightarrow> string list \<Rightarrow> string list" where
  "walk acc [] = rev acc"
| "walk acc (s # ss) =
     (if s = [] \<or> s = ''.'' then walk acc ss
      else if s = ''..'' then walk (tl acc) ss
      else walk (s # acc) ss)"

definition resolve :: "string \<Rightarrow> string \<Rightarrow> string list" where
  "resolve root p =
     (if is_absolute p then walk [] (split_path p)
      else walk [] (split_path root @ split_path p))"

text \<open>
  Modelled from the spec: the path contains a \<^verbatim>\<open>..\<close> segment; the resolved location does
  not escape the root (it is the root or below it); it is strictly inside the root.
\<close>

definition has_dotdot :: "string \<Rightarrow> bool" where
  "has_dotdot p \<longleftrightarrow> ''..'' \<in> set (split_path p)"

definition within_root :: "string \<Rightarrow> string \<Rightarrow> bool" where
  "within_root root p \<longleftrightarrow>
     (let r = walk [] (split_path root) in take (length r) (resolve root p) = r)"

definition strictly_inside :: "string \<Rightarrow> string \<Rightarrow> bool" where
  "strictly_inside root p \<longleftrightarrow>
     within_root root p \<and> length (walk [] (split_path root)) < length (resolve root p)"

datatype rejection = PathEscape

text \<open>
  Modelled from the spec: the verdict of check (c) on the path of an action, the
  canonical path on acceptance.
\<close>

definition validatePath :: "string \<Rightarrow> string \<Rightarrow> rejection + string list" where
  "validatePath root p =
     (if has_dotdot p then Inl PathEscape
      else if \<not> within_root root p then Inl PathEscape
      else Inr (resolve root p))"

section \<open>A session for the scenarios\<close>

text \<open>
  A flow that is polling: the render that started it saw an expiry at
  1700001800000 ms, the device code is \<open>DC\<close>, the verifier \<open>CV\<close>, the interval five
  seconds, and the first poll is due.
\<close>

definition demo_env :: dialog where
  "demo_env = initial_dialog\<lparr>deviceCodeExpiry := Num 1700001800000\<rparr>"

definition demo_timer :: timer where
  "demo_timer =
     \<lparr>t_env = demo_env, t_deviceCode = ''DC'', t_codeVerifier = ''CV'',
      t_interval = Num 5, t_delay = Num 3000\<rparr>"

definition demo_session :: world where
  "demo_session =
     \<lparr>ui = demo_env\<lparr>step := Step_polling, deviceCode := ''DC''\<rparr>, stored = [],
      requests = [], pending = [demo_timer], toasts = []\<rparr>"

text \<open>The token operation rejects with an error body that has this \<^verbatim>\<open>error\<close> member.\<close>

definition oauth_error :: "string \<Rightarrow> thrown" where
  "oauth_error c =
     \<lparr>isError = False, e_error = Some c, e_error_description = None, e_message = None,
      e_code = None\<rparr>"

definition rejected :: "thrown \<Rightarrow> int \<Rightarrow> poll_event" where
  "rejected e t = \<lparr>now = t, token = Inl e, now_stored = t, persist = None\<rparr>"

text \<open>The same flow when the server has given an interval of 100000000000000000 seconds.\<close>

definition huge_timer :: timer where
  "huge_timer = demo_timer\<lparr>t_interval := Num 100000000000000000\<rparr>"

definition huge_session :: world where
  "huge_session = demo_session\<lparr>pending := [huge_timer]\<rparr>"

definition demo_token :: QwenTokenResponse where
  "demo_token =
     \<lparr>access_token = ''AT'', refresh_token = None, token_type = ''Bearer'',
      tok_expires_in = Num 3600, scope = ''openid'', resource_url = None\<rparr>"

text \<open>The 32 random bytes of one call of the device-code handler, and its answer.\<close>

definition demo_random :: "8 word list" where
  "demo_random =
     [251, 255, 254, 0, 1, 2, 3, 4, 5, 6, 7, 8, 9, 10, 11, 12, 13, 14, 15, 16, 17, 18, 19,
      20, 21, 22, 23, 24, 25, 26, 27, 28]"

definition demo_device_data :: json_obj where
  "demo_device_data =
     map_of [(''device_code'', JString ''DC''), (''user_code'', JString ''U1''),
             (''verification_uri'', JString ''https://chat.qwen.ai/device''),
             (''verification_uri_complete'', JString ''https://chat.qwen.ai/device?code=U1''),
             (''expires_in'', JNumber (Num 1800)), (''interval'', JNumber (Num 5))]"

text \<open>The start of a flow that is given the result of the handler for these data.\<close>

definition demo_start :: start_event where
  "demo_start =
     \<lparr>device = Inr (as_device_code_result
                       (demo_device_data
                          (''code_verifier'' \<mapsto>
                             JString ''-__-AAECAwQFBgcICQoLDA0ODxAREhMUFRYXGBkaGxw''))),
      now_expiry = 1700000000000, opened = None, now_polling = 1700000000000\<rparr>"

text \<open>
  Two flows after the component was mounted. The first is started at 1700000000000 ms and
  its device code is valid for 1800 seconds; its first poll is due three seconds later.
  After \<^verbatim>\<open>Try Again\<close> the second is started at 1700000010000 ms, and its device code is
  valid for 60 seconds, until 1700000070000 ms; it is polled every five seconds from
  1700000013000 ms on, twelve times up to 1700000068000 ms.
\<close>

definition first_flow :: start_event where
  "first_flow =
     \<lparr>device = Inr \<lparr>device_code = ''DC1'', user_code = ''U1'',
                      verification_uri = ''https://chat.qwen.ai/device'',
                      verification_uri_complete = ''https://chat.qwen.ai/device?code=U1'',
                      expires_in = Num 1800, interval = Num 5,
                      code_verifier = ''CV1''\<rparr>,
      now_expiry = 1700000000000, opened = None, now_polling = 1700000000000\<rparr>"

definition second_flow :: start_event where
  "second_flow =
     \<lparr>device = Inr \<lparr>device_code = ''DC2'', user_code = ''U2'',
                      verification_uri = ''https://chat.qwen.ai/device'',
                      verification_uri_complete = ''https://chat.qwen.ai/device?code=U2'',
                      expires_in = Num 60, interval = Num 5,
                      code_verifier = ''CV2''\<rparr>,
      now_expiry = 1700000010000, opened = None, now_polling = 1700000010000\<rparr>"

definition after_first_flow :: world where
  "after_first_flow =
     fire 0 (rejected (oauth_error ''authorization_pending'') 1700000003000)
       (clickStart first_flow initial_world)"

definition second_session :: world where
  "second_session = clickStart second_flow (clickTryAgain after_first_flow)"

definition second_session_polled :: world where
  "second_session_polled =
     polls (map (rejected (oauth_error ''authorization_pending''))
              [1700000013000, 1700000018000, 1700000023000, 1700000028000, 1700000033000,
               1700000038000, 1700000043000, 1700000048000, 1700000053000, 1700000058000,
               1700000063000, 1700000068000])
       second_session"

section \<open>JavaScript numbers: rounding\<close>

lemma bitlen_le_iff: "bitlen m \<le> n \<longleftrightarrow> m < 2 ^ n"
proof (induction m arbitrary: n rule: bitlen.induct)
  case (1 m)
  show ?case
  proof (cases "m = 0")
    case True
    then show ?thesis by (simp add: bitlen.simps)
  next
    case False
    show ?thesis
    proof (cases n)
      case 0
      with False show ?thesis by (simp add: bitlen.simps [of m])
    next
      case (Suc n')
      have "bitlen m \<le> Suc n' \<longleftrightarrow> bitlen (m div 2) \<le> n'"
        using False by (simp add: bitlen.simps [of m])
      also have "\<dots> \<longleftrightarrow> m div 2 < 2 ^ n'"
        using "1.IH" [OF False] .
      also have "\<dots> \<longleftrightarrow> m < 2 ^ Suc n'"
        by auto
      finally show ?thesis using Suc by simp
    qed
  qed
qed

lemma bitlen_upper: "m < 2 ^ bitlen m"
  using bitlen_le_iff [of m "bitlen m"] by simp

lemma bitlen_lower: "0 < bitlen m \<Longrightarrow> 2 ^ (bitlen m - 1) \<le> m"
  using bitlen_le_iff [of m "bitlen m - 1"] by (cases "bitlen m") (auto simp: not_less)

lemma bitlen_mono: "a \<le> b \<Longrightarrow> bitlen a \<le> bitlen b"
  using bitlen_le_iff [of a "bitlen b"] bitlen_upper [of b] by simp

text \<open>A number of at least 54 binary digits, and the unit in its last kept place.\<close>

lemma big_facts:
  assumes "\<not> m < 2 ^ 53"
  defines "q \<equiv> 2 ^ (bitlen m - 53)"
  shows "54 \<le> bitlen m" and "0 < q" and "2 ^ 52 * q \<le> m" and "m < 2 ^ 53 * q"
    and "2 ^ 52 \<le> m div q" and "m div q < 2 ^ 53"
proof -
  show b: "54 \<le> bitlen m"
    using assms(1) bitlen_le_iff [of m 53] by simp
  show q: "0 < q" by (simp add: q_def)
  have "2 ^ (bitlen m - 1) \<le> m" using b by (intro bitlen_lower) simp
  moreover have "(2::nat) ^ 52 * 2 ^ (bitlen m - 53) = 2 ^ (bitlen m - 1)"
  proof -
    from b have "52 + (bitlen m - 53) = bitlen m - 1" by arith
    then show ?thesis by (simp only: power_add [symmetric])
  qed
  ultimately show lo: "2 ^ 52 * q \<le> m" by (simp add: q_def)
  have "(2::nat) ^ 53 * 2 ^ (bitlen m - 53) = 2 ^ bitlen m"
  proof -
    from b have "53 + (bitlen m - 53) = bitlen m" by arith
    then show ?thesis by (simp only: power_add [symmetric])
  qed
  with bitlen_upper [of m] show hi: "m < 2 ^ 53 * q" by (simp add: q_def)
  from lo q show "2 ^ 52 \<le> m div q"
    by (metis div_le_mono div_mult_self_is_m)
  from hi q show "m div q < 2 ^ 53"
    by (simp add: less_mult_imp_div_less mult.commute)
qed

lemma round53_bounds:
  assumes "\<not> m < 2 ^ 53"
  shows "(m div 2 ^ (bitlen m - 53)) * 2 ^ (bitlen m - 53) \<le> round53 m"
    and "round53 m \<le> (m div 2 ^ (bitlen m - 53) + 1) * 2 ^ (bitlen m - 53)"
    and "2 ^ (bitlen m - 53) dvd round53 m"
  using assms by (auto simp: round53_def Let_def)

lemma round53_fix_iff:
  "round53 m = m \<longleftrightarrow> m < 2 ^ 53 \<or> 2 ^ (bitlen m - 53) dvd m"
proof (cases "m < 2 ^ 53")
  case True
  then show ?thesis by (simp add: round53_def)
next
  case False
  show ?thesis
  proof
    assume "round53 m = m"
    with round53_bounds(3) [OF False] show "m < 2 ^ 53 \<or> 2 ^ (bitlen m - 53) dvd m"
      by simp
  next
    assume "m < 2 ^ 53 \<or> 2 ^ (bitlen m - 53) dvd m"
    with False have d: "2 ^ (bitlen m - 53) dvd m" by simp
    then have "m mod 2 ^ (bitlen m - 53) = 0" by (simp add: dvd_eq_mod_eq_0)
    with False d show "round53 m = m"
      by (simp add: round53_def Let_def)
  qed
qed


lemma round53_lower:
  assumes fx: "round53 M = M" and le: "M \<le> m"
  shows "M \<le> round53 m"
proof (cases "m < 2 ^ 53")
  case True
  with le show ?thesis by (simp add: round53_def)
next
  case False
  define q :: nat where "q = 2 ^ (bitlen m - 53)"
  note f = big_facts [OF False, folded q_def]
  have down: "(m div q) * q \<le> round53 m"
    using round53_bounds(1) [OF False] by (simp add: q_def)
  have "M \<le> (m div q) * q"
  proof (cases "M < 2 ^ 52 * q")
    case True
    moreover have "2 ^ 52 * q \<le> (m div q) * q"
      using f(5) by (rule mult_le_mono1)
    ultimately show ?thesis by (rule less_imp_le [OF less_le_trans])
  next
    case big: False
    have bM: "bitlen M = bitlen m"
    proof (rule antisym)
      show "bitlen M \<le> bitlen m" using le by (rule bitlen_mono)
      have "\<not> M < 2 ^ (bitlen m - 1)"
      proof -
        from f(1) have "52 + (bitlen m - 53) = bitlen m - 1" by arith
        then have "(2::nat) ^ 52 * q = 2 ^ (bitlen m - 1)"
          unfolding q_def by (simp only: power_add [symmetric])
        with big show ?thesis by simp
      qed
      then have "\<not> bitlen M \<le> bitlen m - 1" by (simp add: bitlen_le_iff)
      then show "bitlen m \<le> bitlen M" by simp
    qed
    have "\<not> M < 2 ^ 53"
    proof -
      have "(2::nat) ^ 53 \<le> 2 ^ 52 * q" using f(2) f(1)
        by (cases "bitlen m - 53") (simp_all add: q_def)
      with big show ?thesis by simp
    qed
    with fx have "q dvd M" by (simp add: round53_fix_iff bM q_def)
    then obtain j where j: "M = j * q" unfolding dvd_def by (metis mult.commute)
    with le f(2) have "j \<le> m div q"
      by (metis div_le_mono div_mult_self_is_m)
    with j show ?thesis by simp
  qed
  with down show ?thesis by simp
qed

lemma round53_upper:
  assumes fx: "round53 M = M" and le: "m \<le> M"
  shows "round53 m \<le> M"
proof (cases "m < 2 ^ 53")
  case True
  with le show ?thesis by (simp add: round53_def)
next
  case False
  define q :: nat where "q = 2 ^ (bitlen m - 53)"
  note f = big_facts [OF False, folded q_def]
  show ?thesis
  proof (cases "q dvd m")
    case True
    then have "round53 m = m"
      using False by (simp add: round53_fix_iff q_def)
    with le show ?thesis by simp
  next
    case nd: False
    have up: "round53 m \<le> (m div q + 1) * q"
      using round53_bounds(2) [OF False] by (simp add: q_def)
    have "(m div q + 1) * q \<le> M"
    proof (cases "bitlen M = bitlen m")
      case True
      from le False have "\<not> M < 2 ^ 53" by simp
      with fx have "q dvd M" by (simp add: round53_fix_iff True q_def)
      then obtain j where j: "M = j * q" unfolding dvd_def by (metis mult.commute)
      have "m div q < j"
      proof (rule ccontr)
        assume "\<not> m div q < j"
        then have "j * q \<le> (m div q) * q" by simp
        also have "\<dots> \<le> m" by simp
        finally have "M \<le> m" using j by simp
        with le have "m = M" by simp
        with j nd show False by simp
      qed
      then have "m div q + 1 \<le> j" by simp
      then have "(m div q + 1) * q \<le> j * q" by (rule mult_le_mono1)
      with j show ?thesis by simp
    next
      case False
      with bitlen_mono [OF le] have "\<not> bitlen M \<le> bitlen m" by simp
      then have "2 ^ bitlen m \<le> M" by (simp add: bitlen_le_iff not_less)
      moreover have "(2::nat) ^ 53 * q = 2 ^ bitlen m"
      proof -
        from f(1) have "53 + (bitlen m - 53) = bitlen m" by arith
        then show ?thesis unfolding q_def by (simp only: power_add [symmetric])
      qed
      moreover have "(m div q + 1) * q \<le> 2 ^ 53 * q"
        using f(6) by (intro mult_le_mono1) simp
      ultimately show ?thesis by simp
    qed
    with up show ?thesis by simp
  qed
qed

lemma round53_idem: "round53 (round53 m) = round53 m"
proof (cases "m < 2 ^ 53")
  case True
  then show ?thesis by (simp add: round53_def)
next
  case False
  define q :: nat where "q = 2 ^ (bitlen m - 53)"
  define R where "R = round53 m"
  note f = big_facts [OF False, folded q_def]
  have lo: "(m div q) * q \<le> R" and hi: "R \<le> (m div q + 1) * q" and dv: "q dvd R"
    using round53_bounds [OF False] by (simp_all add: q_def R_def)
  have p: "(2::nat) ^ 53 * q = 2 ^ bitlen m"
  proof -
    from f(1) have "53 + (bitlen m - 53) = bitlen m" by arith
    then show ?thesis unfolding q_def by (simp only: power_add [symmetric])
  qed
  have p': "(2::nat) ^ 52 * q = 2 ^ (bitlen m - 1)"
  proof -
    from f(1) have "52 + (bitlen m - 53) = bitlen m - 1" by arith
    then show ?thesis unfolding q_def by (simp only: power_add [symmetric])
  qed
  have Rlo: "2 ^ (bitlen m - 1) \<le> R"
  proof -
    have "2 ^ 52 * q \<le> (m div q) * q" using f(5) by (rule mult_le_mono1)
    with lo show ?thesis unfolding p' by (rule le_trans [rotated])
  qed
  have Rhi: "R \<le> 2 ^ bitlen m"
  proof -
    have "(m div q + 1) * q \<le> 2 ^ 53 * q" using f(6) by (intro mult_le_mono1) simp
    with hi p show ?thesis by simp
  qed
  have big: "\<not> R < 2 ^ 53"
  proof -
    have "(2::nat) ^ 53 \<le> 2 ^ (bitlen m - 1)"
      using f(1) by (intro power_increasing) simp_all
    with Rlo show ?thesis by simp
  qed
  have "2 ^ (bitlen R - 53) dvd R"
  proof (cases "R < 2 ^ bitlen m")
    case True
    then have "bitlen R \<le> bitlen m" by (simp add: bitlen_le_iff)
    moreover from Rlo have "\<not> bitlen R \<le> bitlen m - 1" by (simp add: bitlen_le_iff not_less)
    ultimately have "bitlen R = bitlen m" by simp
    with dv show ?thesis by (simp add: q_def)
  next
    case False
    with Rhi have R: "R = 2 ^ bitlen m" by simp
    have "bitlen R \<le> bitlen m + 1"
      by (simp add: bitlen_le_iff R)
    then have "bitlen R - 53 \<le> bitlen m" by simp
    then show ?thesis unfolding R by (rule le_imp_power_dvd)
  qed
  then show ?thesis
    unfolding R_def [symmetric] by (simp add: round53_fix_iff)
qed

lemma below_limit: "m < 2 ^ 100 \<Longrightarrow> \<not> double_limit \<le> m"
proof -
  assume "m < 2 ^ 100"
  moreover have "(2::nat) ^ 100 \<le> 2 ^ 1024" by (rule power_increasing) simp_all
  ultimately have "m < 2 ^ 1024" by (rule less_le_trans)
  then show ?thesis by (simp only: double_limit_def not_le)
qed

lemma to_number_safe: "\<bar>x\<bar> < 2 ^ 53 \<Longrightarrow> to_number x = Num x"
proof -
  assume a: "\<bar>x\<bar> < 2 ^ 53"
  then have n: "nat \<bar>x\<bar> < 2 ^ 53" by (simp add: nat_less_iff)
  then have r: "round53 (nat \<bar>x\<bar>) = nat \<bar>x\<bar>" by (simp add: round53_def)
  have "(2::nat) ^ 53 \<le> 2 ^ 100" by (rule power_increasing) simp_all
  with n have "nat \<bar>x\<bar> < 2 ^ 100" by (rule less_le_trans)
  then have "\<not> double_limit \<le> nat \<bar>x\<bar>" by (rule below_limit)
  with r show ?thesis by (simp add: to_number_def Let_def)
qed

lemma to_number_Num:
  "to_number x = Num z \<longleftrightarrow>
     round53 (nat \<bar>x\<bar>) < double_limit \<and>
     z = (if x < 0 then - int (round53 (nat \<bar>x\<bar>)) else int (round53 (nat \<bar>x\<bar>)))"
  by (auto simp: to_number_def Let_def not_le)

lemma is_number_fix:
  "is_number (Num a) \<longleftrightarrow> round53 (nat \<bar>a\<bar>) = nat \<bar>a\<bar> \<and> nat \<bar>a\<bar> < double_limit"
proof -
  have "is_number (Num a) \<longleftrightarrow> round53 (nat \<bar>a\<bar>) < double_limit \<and>
      a = (if a < 0 then - int (round53 (nat \<bar>a\<bar>)) else int (round53 (nat \<bar>a\<bar>)))"
    by (simp only: is_number.simps to_number_Num)
  also have "\<dots> \<longleftrightarrow> round53 (nat \<bar>a\<bar>) = nat \<bar>a\<bar> \<and> nat \<bar>a\<bar> < double_limit"
    by (cases "a < 0") auto
  finally show ?thesis .
qed

lemma is_number_to_number: "is_number (to_number y)"
proof (cases "to_number y")
  case (Num z)
  then have lt: "round53 (nat \<bar>y\<bar>) < double_limit"
    and z: "z = (if y < 0 then - int (round53 (nat \<bar>y\<bar>)) else int (round53 (nat \<bar>y\<bar>)))"
    by (simp_all add: to_number_Num)
  from z have "nat \<bar>z\<bar> = round53 (nat \<bar>y\<bar>)" by (cases "y < 0") simp_all
  with lt show ?thesis unfolding Num by (simp add: is_number_fix round53_idem)
qed simp_all

lemma is_number_js_plus: "is_number (js_plus x n)"
  by (cases x) (simp_all add: is_number_to_number)

lemma is_number_js_times1000: "is_number (js_times1000 x)"
  by (cases x) (simp_all add: is_number_to_number)

lemma js_plus_safe: "\<bar>a + n\<bar> < 2 ^ 53 \<Longrightarrow> js_plus (Num a) n = Num (a + n)"
  by (simp add: to_number_safe)

lemma not_js_gt_refl: "\<not> js_gt x x"
  by (cases x) simp_all

lemma js_le_trans: "\<not> js_gt a b \<Longrightarrow> \<not> js_gt b c \<Longrightarrow> \<not> js_gt a c"
  by (cases a; cases b; cases c) simp_all

text \<open>Adding an integer that is not negative never gives a smaller number.\<close>

lemma js_plus_not_below:
  assumes "is_number x" and "0 \<le> n"
  shows "\<not> js_gt x (js_plus x n)"
proof (cases x)
  case (Num a)
  with assms(1) have fx: "round53 (nat \<bar>a\<bar>) = nat \<bar>a\<bar>" and fin: "nat \<bar>a\<bar> < double_limit"
    by (simp_all add: is_number_fix)
  define y where "y = a + n"
  have ay: "a \<le> y" using assms(2) by (simp add: y_def)
  show ?thesis
  proof (cases "y < 0")
    case True
    with ay have "nat \<bar>y\<bar> \<le> nat \<bar>a\<bar>" by simp
    from round53_upper [OF fx this] have up: "round53 (nat \<bar>y\<bar>) \<le> nat \<bar>a\<bar>" .
    with fin have "\<not> double_limit \<le> round53 (nat \<bar>y\<bar>)" by simp
    with True have "to_number y = Num (- int (round53 (nat \<bar>y\<bar>)))"
      by (simp add: to_number_def Let_def)
    moreover from up True ay have "a \<le> - int (round53 (nat \<bar>y\<bar>))" by linarith
    ultimately show ?thesis by (simp add: Num y_def [symmetric])
  next
    case False
    show ?thesis
    proof (cases "double_limit \<le> round53 (nat \<bar>y\<bar>)")
      case True
      with False have "to_number y = PosInfinity" by (simp add: to_number_def Let_def)
      then show ?thesis by (simp add: Num y_def [symmetric])
    next
      case fin': False
      with False have t: "to_number y = Num (int (round53 (nat \<bar>y\<bar>)))"
        by (simp add: to_number_def Let_def)
      have "a \<le> int (round53 (nat \<bar>y\<bar>))"
      proof (cases "a \<le> 0")
        case True
        then show ?thesis by simp
      next
        case pos: False
        with ay have "nat \<bar>a\<bar> \<le> nat \<bar>y\<bar>" by simp
        from round53_lower [OF fx this] pos show ?thesis by linarith
      qed
      with t show ?thesis by (simp add: Num y_def [symmetric])
    qed
  qed
qed simp_all

section \<open>Proof key: the replacements after \<^verbatim>\<open>btoa\<close> give base64url\<close>

lemma sextets_lt: "\<forall>a\<in>set xs. a < 256 \<Longrightarrow> \<forall>g\<in>set (sextets xs). \<forall>i\<in>set g. i < 64"
  by (induction xs rule: sextets.induct) auto

lemma alphabet_map:
  "map (\<lambda>x. if x = CHR ''/'' then CHR ''_'' else x)
     (map (\<lambda>x. if x = CHR ''+'' then CHR ''-'' else x) b64_alphabet) = b64url_alphabet"
  by (simp add: b64_alphabet_def b64url_alphabet_def)

lemma url_no_pad: "CHR ''='' \<notin> set b64url_alphabet"
  by (simp add: b64url_alphabet_def)

lemma len_alphabet: "length b64_alphabet = 64" "length b64url_alphabet = 64"
  by (simp_all add: b64_alphabet_def b64url_alphabet_def)

lemma url_char:
  assumes "i < 64"
  shows "(if (if b64_alphabet ! i = CHR ''+'' then CHR ''-'' else b64_alphabet ! i) = CHR ''/''
          then CHR ''_''
          else (if b64_alphabet ! i = CHR ''+'' then CHR ''-'' else b64_alphabet ! i))
         = b64url_alphabet ! i"
proof -
  have "map (\<lambda>x. if x = CHR ''/'' then CHR ''_'' else x)
     (map (\<lambda>x. if x = CHR ''+'' then CHR ''-'' else x) b64_alphabet) ! i = b64url_alphabet ! i"
    by (simp only: alphabet_map)
  with assms show ?thesis
    by (simp add: len_alphabet)
qed

lemma url_char_not_pad:
  assumes "i < 64"
  shows "b64url_alphabet ! i \<noteq> CHR ''=''"
proof -
  from assms have "b64url_alphabet ! i \<in> set b64url_alphabet"
    by (intro nth_mem) (simp add: len_alphabet)
  with url_no_pad show ?thesis by metis
qed

lemma url_group:
  assumes "\<forall>i\<in>set g. i < 64"
  shows "remove_all CHR ''='' (replace_all CHR ''/'' CHR ''_'' (replace_all CHR ''+'' CHR ''-''
           (map (\<lambda>i. b64_alphabet ! i) g @ replicate n CHR ''=''))) =
         map (\<lambda>i. b64url_alphabet ! i) g"
  using assms
proof (induction g)
  case Nil
  show ?case by (simp add: remove_all_def replace_all_def)
next
  case (Cons i g)
  then have i: "i < 64" and g: "\<forall>i\<in>set g. i < 64" by simp_all
  from Cons.IH [OF g] show ?case
    using url_char [OF i] url_char_not_pad [OF i]
    by (simp add: remove_all_def replace_all_def)
qed

lemma url_groups:
  assumes "\<forall>g\<in>set gs. \<forall>i\<in>set g. i < 64"
  shows "remove_all CHR ''='' (replace_all CHR ''/'' CHR ''_'' (replace_all CHR ''+'' CHR ''-''
           (concat (map (\<lambda>g. map (\<lambda>i. b64_alphabet ! i) g @ replicate (4 - length g) CHR ''='') gs)))) =
         concat (map (map (\<lambda>i. b64url_alphabet ! i)) gs)"
  using assms
proof (induction gs)
  case Nil
  show ?case by (simp add: remove_all_def replace_all_def)
next
  case (Cons g gs)
  then have g: "\<forall>i\<in>set g. i < 64" and gs: "\<forall>g\<in>set gs. \<forall>i\<in>set g. i < 64" by simp_all
  have app: "\<And>xs ys. remove_all CHR ''='' (replace_all CHR ''/'' CHR ''_'' (replace_all CHR ''+'' CHR ''-'' (xs @ ys)))
     = remove_all CHR ''='' (replace_all CHR ''/'' CHR ''_'' (replace_all CHR ''+'' CHR ''-'' xs)) @
       remove_all CHR ''='' (replace_all CHR ''/'' CHR ''_'' (replace_all CHR ''+'' CHR ''-'' ys))"
    by (simp add: remove_all_def replace_all_def)
  show ?case
    using Cons.IH [OF gs] url_group [OF g, of "4 - length g"]
    by (simp only: list.map concat.simps app)
qed

lemma codes_fromCharCode: "map of_char (fromCharCode bytes) = map unat bytes"
proof -
  have "unat b mod 256 = unat b" for b :: "8 word"
    using unsigned_less [of b, where ?'a = nat] by simp
  then show ?thesis
    by (simp add: fromCharCode_def comp_def)
qed

lemma btoa_url:
  "remove_all CHR ''='' (replace_all CHR ''/'' CHR ''_'' (replace_all CHR ''+'' CHR ''-''
     (btoa (fromCharCode bytes)))) = base64url bytes"
proof -
  have "\<forall>a\<in>set (map unat bytes). a < 256"
    using unsigned_less [where ?'a = nat and ?'b = 8] by auto
  then have "\<forall>g\<in>set (sextets (map unat bytes)). \<forall>i\<in>set g. i < 64"
    by (rule sextets_lt)
  then show ?thesis
    unfolding btoa_def base64url_def codes_fromCharCode by (rule url_groups)
qed

text \<open>
  C7: the device-code request carries exactly the client identifier, the scope, the
  challenge and the method \<open>S256\<close>, where the challenge is the base64url encoding of the
  digest of the verifier, and the verifier is the base64url encoding of the random bytes
  of this call; the token request carries exactly the device-code grant type, the client
  identifier, the device code and the verifier.
\<close>

theorem device_flow_requests_carry_listed_fields:
  "body (deviceCodeRequest digest random) =
     [(''client_id'', QWEN_CLIENT_ID), (''scope'', QWEN_SCOPE),
      (''code_challenge'', base64url (digest (encode (base64url random)))),
      (''code_challenge_method'', ''S256'')] \<and>
   url (deviceCodeRequest digest random) = QWEN_DEVICE_CODE_URL \<and>
   generateCodeVerifier random = base64url random \<and>
   body (tokenRequest dCode cVerifier) =
     [(''grant_type'', ''urn:ietf:params:oauth:grant-type:device_code''),
      (''client_id'', QWEN_CLIENT_ID), (''device_code'', dCode),
      (''code_verifier'', cVerifier)] \<and>
   url (tokenRequest dCode cVerifier) = QWEN_TOKEN_URL"
  by (simp add: deviceCodeRequest_def tokenRequest_def generateCodeVerifier_def
        generateCodeChallenge_def btoa_url)

section \<open>The polling loop\<close>

lemma pollForToken_expired:
  "js_gt (Num (now ev)) (deviceCodeExpiry env) \<Longrightarrow>
   pollForToken env d c i ev w = setStep Step_error (setError timed_out_message w)"
  by (simp add: pollForToken_def)

lemma pollForToken_failed:
  "\<not> js_gt (Num (now ev)) (deviceCodeExpiry env) \<Longrightarrow> token ev = Inl e \<Longrightarrow>
   pollForToken env d c i ev w = pollCatch env d c i e (qwenOAuthToken d c w)"
  by (simp add: pollForToken_def)

lemma pollForToken_success:
  "\<not> js_gt (Num (now ev)) (deviceCodeExpiry env) \<Longrightarrow> token ev = Inr r \<Longrightarrow> persist ev = None \<Longrightarrow>
   pollForToken env d c i ev w =
     showSuccess ''Qwen authentication successful! Pro features are now enabled.''
       (setStep Step_success
          (updateSettings
             \<lparr>qwenAccessToken = access_token r,
              qwenRefreshToken = js_or_default (refresh_token r) [],
              qwenTokenExpiry = js_plus (js_times1000 (tok_expires_in r)) (now_stored ev),
              qwenResourceUrl = js_or_default (resource_url r)
                 ''https://dashscope.aliyuncs.com/api/v1/''\<rparr>
             (qwenOAuthToken d c w)))"
  by (simp add: pollForToken_def)

lemma pollForToken_caught:
  "\<not> js_gt (Num (now ev)) (deviceCodeExpiry env) \<Longrightarrow> caught ev = Some e \<Longrightarrow>
   \<exists>w'. pollForToken env d c i ev w = pollCatch env d c i e w' \<and> pending w' = pending w
        \<and> ui w' = ui w"
  by (auto simp: pollForToken_def caught_def qwenOAuthToken_def updateSettings_def
           split: sum.splits)

lemma fire_single:
  "pending w = [t] \<Longrightarrow>
   fire 0 ev w = pollForToken (t_env t) (t_deviceCode t) (t_codeVerifier t) (t_interval t) ev
                   (w\<lparr>pending := []\<rparr>)"
  by (simp add: fire_def)

lemma fire_none: "pending w = [] \<Longrightarrow> fire k ev w = w"
  by (simp add: fire_def)

lemma polls_none: "pending w = [] \<Longrightarrow> polls evs w = w"
  by (induction evs) (simp_all add: fire_none)

lemma polls_append: "polls (xs @ ys) w = polls ys (polls xs w)"
  by (induction xs arbitrary: w) simp_all

lemma pollCatch_pending:
  "pending (pollCatch env d c i e w) = pending w \<or>
   pending (pollCatch env d c i e w) = pending w @ [repoll env d c i] \<or>
   pending (pollCatch env d c i e w) = pending w @ [repoll env d c (js_plus i 5)]"
  by (simp add: pollCatch_def setTimeout_def setStep_def setError_def)

lemma pollCatch_continuing:
  "continuing e \<Longrightarrow>
   pollCatch env d c i e w =
     setTimeout (repoll env d c (if e_error e = Some ''slow_down'' then js_plus i 5 else i)) w"
  by (auto simp: pollCatch_def continuing_def)

lemma pollForToken_pending:
  "pending (pollForToken env d c i ev w) = pending w \<or>
   pending (pollForToken env d c i ev w) = pending w @ [repoll env d c i] \<or>
   pending (pollForToken env d c i ev w) = pending w @ [repoll env d c (js_plus i 5)]"
proof (cases "js_gt (Num (now ev)) (deviceCodeExpiry env)")
  case True
  then show ?thesis
    by (simp add: pollForToken_expired setStep_def setError_def)
next
  case live: False
  show ?thesis
  proof (cases "caught ev")
    case None
    then obtain r where "token ev = Inr r" "persist ev = None"
      by (auto simp: caught_def split: sum.splits)
    with live show ?thesis
      by (simp add: pollForToken_success showSuccess_def setStep_def updateSettings_def
            qwenOAuthToken_def)
  next
    case (Some e)
    with live obtain w' where "pollForToken env d c i ev w = pollCatch env d c i e w'"
      "pending w' = pending w"
      using pollForToken_caught [of ev env e d c i w] by auto
    then show ?thesis
      using pollCatch_pending [of env d c i e w'] by simp
  qed
qed

lemma fire_pending:
  assumes "pending w = [t]"
  shows "pending (fire 0 ev w) = [] \<or>
         pending (fire 0 ev w) =
           [repoll (t_env t) (t_deviceCode t) (t_codeVerifier t) (t_interval t)] \<or>
         pending (fire 0 ev w) =
           [repoll (t_env t) (t_deviceCode t) (t_codeVerifier t) (js_plus (t_interval t) 5)]"
  using pollForToken_pending [of "t_env t" "t_deviceCode t" "t_codeVerifier t" "t_interval t" ev
      "w\<lparr>pending := []\<rparr>"]
  by (simp add: fire_single [OF assms])

lemma fire_continuing:
  assumes "pending w = [t]" and "\<not> js_gt (Num (now ev)) (deviceCodeExpiry (t_env t))"
    and "token ev = Inl e" and "continuing e"
  shows "fire 0 ev w =
           qwenOAuthToken (t_deviceCode t) (t_codeVerifier t)
             (w\<lparr>pending := [repoll (t_env t) (t_deviceCode t) (t_codeVerifier t)
                    (if e_error e = Some ''slow_down'' then js_plus (t_interval t) 5 else t_interval t)]\<rparr>)"
  using assms
  by (simp add: fire_single pollForToken_failed pollCatch_continuing setTimeout_def
        qwenOAuthToken_def)

text \<open>A run of continuing responses keeps the flow polling.\<close>

lemma polls_continuing:
  assumes "pending w = [t]"
    and "\<forall>ev\<in>set evs. \<not> js_gt (Num (now ev)) (deviceCodeExpiry (t_env t)) \<and>
           (\<exists>e. token ev = Inl e \<and> continuing e)"
  shows "\<exists>t'. pending (polls evs w) = [t'] \<and> t_env t' = t_env t \<and>
              t_deviceCode t' = t_deviceCode t \<and> t_codeVerifier t' = t_codeVerifier t \<and>
              ui (polls evs w) = ui w \<and> stored (polls evs w) = stored w \<and>
              length (requests (polls evs w)) = length (requests w) + length evs"
  using assms
proof (induction evs arbitrary: w t)
  case Nil
  then show ?case by simp
next
  case (Cons ev evs)
  from Cons.prems obtain e where live: "\<not> js_gt (Num (now ev)) (deviceCodeExpiry (t_env t))"
    and e: "token ev = Inl e" "continuing e"
    by auto
  define t1 where "t1 = repoll (t_env t) (t_deviceCode t) (t_codeVerifier t)
                    (if e_error e = Some ''slow_down'' then js_plus (t_interval t) 5 else t_interval t)"
  define w1 where "w1 = fire 0 ev w"
  have w1: "w1 = qwenOAuthToken (t_deviceCode t) (t_codeVerifier t) (w\<lparr>pending := [t1]\<rparr>)"
    unfolding w1_def t1_def using fire_continuing [OF Cons.prems(1) live e] .
  have t1: "t_env t1 = t_env t" "t_deviceCode t1 = t_deviceCode t"
    "t_codeVerifier t1 = t_codeVerifier t"
    by (simp_all add: t1_def repoll_def)
  have p1: "pending w1 = [t1]" and u1: "ui w1 = ui w" and s1: "stored w1 = stored w"
    and r1: "length (requests w1) = length (requests w) + 1"
    by (simp_all add: w1 qwenOAuthToken_def)
  from Cons.prems(2) t1(1)
  have rest: "\<forall>ev\<in>set evs. \<not> js_gt (Num (now ev)) (deviceCodeExpiry (t_env t1)) \<and>
           (\<exists>e. token ev = Inl e \<and> continuing e)"
    by simp
  from Cons.IH [OF p1 rest] obtain t' where
    "pending (polls evs w1) = [t']" "t_env t' = t_env t1" "t_deviceCode t' = t_deviceCode t1"
    "t_codeVerifier t' = t_codeVerifier t1"
    "ui (polls evs w1) = ui w1" "stored (polls evs w1) = stored w1"
    "length (requests (polls evs w1)) = length (requests w1) + length evs"
    by blast
  with t1 u1 s1 r1 show ?case
    by (simp add: w1_def [symmetric])
qed

lemma polls_interval:
  "pending w = [t] \<Longrightarrow> is_number (t_interval t) \<Longrightarrow>
   \<forall>t'\<in>set (pending (polls evs w)). \<not> js_gt (t_interval t) (t_interval t')"
proof (induction evs arbitrary: w t)
  case Nil
  then show ?case by (simp add: not_js_gt_refl)
next
  case (Cons ev evs)
  from fire_pending [OF Cons.prems(1), of ev]
  consider "pending (fire 0 ev w) = []"
    | "pending (fire 0 ev w) =
         [repoll (t_env t) (t_deviceCode t) (t_codeVerifier t) (t_interval t)]"
    | "pending (fire 0 ev w) =
         [repoll (t_env t) (t_deviceCode t) (t_codeVerifier t) (js_plus (t_interval t) 5)]"
    by blast
  then show ?case
  proof cases
    case 1
    then show ?thesis by (simp add: polls_none)
  next
    case 2
    from Cons.IH [OF 2] Cons.prems(2) show ?thesis
      by (simp add: repoll_def)
  next
    case 3
    have n: "is_number (t_interval (repoll (t_env t) (t_deviceCode t) (t_codeVerifier t)
                 (js_plus (t_interval t) 5)))"
      by (simp add: repoll_def is_number_js_plus)
    have up: "\<not> js_gt (t_interval t) (js_plus (t_interval t) 5)"
      using Cons.prems(2) by (intro js_plus_not_below) simp_all
    from Cons.IH [OF 3 n]
    have "\<forall>t'\<in>set (pending (polls evs (fire 0 ev w))).
            \<not> js_gt (js_plus (t_interval t) 5) (t_interval t')"
      by (simp add: repoll_def)
    with up show ?thesis
      by (auto dest: js_le_trans)
  qed
qed

text \<open>
  C4: when a poll is answered with \<open>access_denied\<close>, after any number of polls that
  were answered with a continuing error (for instance five times
  \<open>authorization_pending\<close>), the flow is in the error step with the message of the
  denial, no timer is pending (and no later event changes anything), nothing was handed
  to the settings, and the success step was never entered.
\<close>

theorem access_denied_is_terminal:
  assumes "pending w = [t]" and "step (ui w) = Step_polling"
    and "\<forall>ev\<in>set pre. \<not> js_gt (Num (now ev)) (deviceCodeExpiry (t_env t)) \<and>
           (\<exists>e. token ev = Inl e \<and> continuing e)"
    and "\<not> js_gt (Num (now d)) (deviceCodeExpiry (t_env t))"
    and "token d = Inl e" and "e_error e = Some ''access_denied''"
  shows "step (ui (polls (pre @ [d]) w)) = Step_error \<and>
         error (ui (polls (pre @ [d]) w)) = ''Authentication was denied. Please try again.'' \<and>
         pending (polls (pre @ [d]) w) = [] \<and>
         stored (polls (pre @ [d]) w) = stored w \<and>
         (\<forall>k. step (ui (polls (take k (pre @ [d])) w)) \<noteq> Step_success) \<and>
         (\<forall>more. polls more (polls (pre @ [d]) w) = polls (pre @ [d]) w)"
proof -
  from polls_continuing [OF assms(1) assms(3)] obtain t' where
    t': "pending (polls pre w) = [t']" "t_env t' = t_env t"
    and u: "ui (polls pre w) = ui w" and s: "stored (polls pre w) = stored w"
    by blast
  have d: "polls (pre @ [d]) w =
             setStep Step_error (setError ''Authentication was denied. Please try again.''
               (qwenOAuthToken (t_deviceCode t') (t_codeVerifier t') ((polls pre w)\<lparr>pending := []\<rparr>)))"
    using assms(4-6) t'
    by (simp add: polls_append fire_single pollForToken_failed pollCatch_def)
  have final: "step (ui (polls (pre @ [d]) w)) = Step_error"
    "error (ui (polls (pre @ [d]) w)) = ''Authentication was denied. Please try again.''"
    "pending (polls (pre @ [d]) w) = []" "stored (polls (pre @ [d]) w) = stored w"
    by (simp_all add: d setStep_def setError_def qwenOAuthToken_def s)
  have never: "step (ui (polls (take k (pre @ [d])) w)) \<noteq> Step_success" for k
  proof (cases "k \<le> length pre")
    case True
    then have tk: "take k (pre @ [d]) = take k pre" by simp
    have "\<forall>ev\<in>set (take k pre). \<not> js_gt (Num (now ev)) (deviceCodeExpiry (t_env t)) \<and>
           (\<exists>e. token ev = Inl e \<and> continuing e)"
      using assms(3) by (meson in_set_takeD)
    from polls_continuing [OF assms(1) this] have "ui (polls (take k pre) w) = ui w"
      by blast
    with assms(2) show ?thesis unfolding tk by simp
  next
    case False
    then have "take k (pre @ [d]) = pre @ [d]" by simp
    with final(1) show ?thesis by simp
  qed
  from final never polls_none [OF final(3)] show ?thesis by blast
qed

theorem access_denied_is_terminal_witness:
  "step (ui (polls (map (rejected (oauth_error ''authorization_pending''))
                      [1700000003000, 1700000008000, 1700000013000, 1700000018000,
                       1700000023000] @
                    [rejected (oauth_error ''access_denied'') 1700000028000])
               demo_session)) = Step_error \<and>
   pending (polls (map (rejected (oauth_error ''authorization_pending''))
                      [1700000003000, 1700000008000, 1700000013000, 1700000018000,
                       1700000023000] @
                    [rejected (oauth_error ''access_denied'') 1700000028000])
               demo_session) = [] \<and>
   stored (polls (map (rejected (oauth_error ''authorization_pending''))
                      [1700000003000, 1700000008000, 1700000013000, 1700000018000,
                       1700000023000] @
                    [rejected (oauth_error ''access_denied'') 1700000028000])
               demo_session) = []"
  using access_denied_is_terminal
    [of demo_session demo_timer
        "map (rejected (oauth_error ''authorization_pending''))
           [1700000003000, 1700000008000, 1700000013000, 1700000018000, 1700000023000]"
        "rejected (oauth_error ''access_denied'') 1700000028000"
        "oauth_error ''access_denied''"]
  by (simp add: demo_session_def demo_timer_def demo_env_def initial_dialog_def
        rejected_def oauth_error_def continuing_def
        to_number_safe)

lemma clickStart_polling:
  assumes "device sev = Inr r" and "opened sev = None" and "pending w = []"
  shows "pending (clickStart sev w) =
           [\<lparr>t_env = ui w, t_deviceCode = device_code r, t_codeVerifier = code_verifier r,
             t_interval = (if interval r = Num 0 then Num 5 else interval r),
             t_delay = Num 3000\<rparr>]"
    and "requests (clickStart sev w) = requests w"
    and "deviceCodeExpiry (ui (clickStart sev w)) =
           js_plus (js_times1000 (expires_in r)) (now_expiry sev)"
    and "step (ui (clickStart sev w)) = Step_polling"
  using assms by (simp_all add: clickStart_def startOAuthFlow_def setTimeout_def)

lemma pollCatch_requests: "requests (pollCatch env d c i e w) = requests w"
  by (simp add: pollCatch_def setTimeout_def setStep_def setError_def)

lemma pollForToken_requests:
  assumes "\<not> js_gt (Num (now ev)) (deviceCodeExpiry env)"
  shows "requests (pollForToken env d c i ev w) =
           requests w @ [\<lparr>p_deviceCode = d, p_codeVerifier = c\<rparr>]"
proof (cases "token ev")
  case (Inl e)
  with assms show ?thesis
    by (simp add: pollForToken_failed pollCatch_requests qwenOAuthToken_def)
next
  case (Inr r)
  with assms show ?thesis
    by (cases "persist ev")
       (simp_all add: pollForToken_def pollCatch_requests showSuccess_def setStep_def
          updateSettings_def qwenOAuthToken_def)
qed

lemma pollCatch_stored: "stored (pollCatch env d c i e w) = stored w"
  by (simp add: pollCatch_def setTimeout_def setStep_def setError_def)

lemma fire_requests:
  assumes "pending w = [t]"
  shows "requests (fire 0 ev w) =
           (if js_gt (Num (now ev)) (deviceCodeExpiry (t_env t)) then requests w
            else requests w @
                   [\<lparr>p_deviceCode = t_deviceCode t, p_codeVerifier = t_codeVerifier t\<rparr>])"
  by (simp add: fire_single [OF assms] pollForToken_requests pollForToken_expired
        setStep_def setError_def)

lemma polls_requests:
  "pending w = [t] \<Longrightarrow>
   \<exists>n. requests (polls evs w) =
         requests w @
           replicate n \<lparr>p_deviceCode = t_deviceCode t, p_codeVerifier = t_codeVerifier t\<rparr>"
proof (induction evs arbitrary: w t)
  case Nil
  have "requests w = requests w @ replicate 0 \<lparr>p_deviceCode = t_deviceCode t,
                                               p_codeVerifier = t_codeVerifier t\<rparr>"
    by simp
  then show ?case unfolding polls.simps by (rule exI)
next
  case (Cons ev evs)
  let ?p = "\<lparr>p_deviceCode = t_deviceCode t, p_codeVerifier = t_codeVerifier t\<rparr>"
  from fire_requests [OF Cons.prems, of ev]
  obtain k where k: "requests (fire 0 ev w) = requests w @ replicate k ?p"
    by (metis append_Nil2 replicate_0 replicate_Suc)
  from fire_pending [OF Cons.prems, of ev]
  consider "pending (fire 0 ev w) = []"
    | j where "pending (fire 0 ev w) =
                 [repoll (t_env t) (t_deviceCode t) (t_codeVerifier t) j]"
    by blast
  then show ?case
  proof cases
    case 1
    with k show ?thesis by (auto simp: polls_none)
  next
    case 2
    from Cons.IH [OF 2] obtain n where
      "requests (polls evs (fire 0 ev w)) = requests (fire 0 ev w) @ replicate n ?p"
      by (auto simp: repoll_def)
    with k have "requests (polls (ev # evs) w) = requests w @ replicate (k + n) ?p"
      by (simp add: replicate_add)
    then show ?thesis by (rule exI)
  qed
qed

text \<open>
  C6: a poll that passes the expiry test of the component and is answered with
  \<open>authorization_pending\<close> leaves every state cell as it was (the step stays
  \<open>polling\<close>), hands nothing to the settings, and sets the timer for the next poll with
  the same device code, the same verifier and the same interval, due after that interval.
\<close>

theorem pending_repolls_unchanged:
  assumes "pending w = [t]" and "step (ui w) = Step_polling"
    and "\<not> js_gt (Num (now ev)) (deviceCodeExpiry (t_env t))"
    and "token ev = Inl e" and "e_error e = Some ''authorization_pending''"
  shows "step (ui (fire 0 ev w)) = Step_polling \<and>
         ui (fire 0 ev w) = ui w \<and>
         stored (fire 0 ev w) = stored w \<and>
         pending (fire 0 ev w) =
           [\<lparr>t_env = t_env t, t_deviceCode = t_deviceCode t,
             t_codeVerifier = t_codeVerifier t, t_interval = t_interval t,
             t_delay = js_times1000 (t_interval t)\<rparr>]"
proof -
  from assms(5) have "continuing e" by (simp add: continuing_def)
  from fire_continuing [OF assms(1) assms(3) assms(4) this] assms(2) assms(5)
  show ?thesis
    by (simp add: qwenOAuthToken_def repoll_def)
qed

theorem pending_repolls_unchanged_witness:
  "ui (fire 0 (rejected (oauth_error ''authorization_pending'') 1700000003000) demo_session)
     = ui demo_session \<and>
   pending (fire 0 (rejected (oauth_error ''authorization_pending'') 1700000003000) demo_session)
     = [\<lparr>t_env = demo_env, t_deviceCode = ''DC'', t_codeVerifier = ''CV'', t_interval = Num 5,
          t_delay = Num 5000\<rparr>]"
  using pending_repolls_unchanged
    [of demo_session demo_timer "rejected (oauth_error ''authorization_pending'') 1700000003000"
        "oauth_error ''authorization_pending''"]
  by (simp add: demo_session_def demo_timer_def demo_env_def initial_dialog_def
        rejected_def oauth_error_def
        to_number_safe)

text \<open>
  C5, as stated, fails for an interval of 100000000000000000 seconds: it is a number,
  and after \<open>slow_down\<close> the next poll is set with the same interval, because
  \<^verbatim>\<open>interval + 5\<close> rounds back to it.
\<close>

theorem slow_down_huge_interval_counterexample:
  "is_number (Num 100000000000000000) \<and>
   map t_interval (pending huge_session) = [Num 100000000000000000] \<and>
   map t_interval
     (pending (fire 0 (rejected (oauth_error ''slow_down'') 1700000003000) huge_session)) =
     [Num 100000000000000000]"
  by (simp add: huge_session_def huge_timer_def demo_session_def demo_timer_def demo_env_def
        initial_dialog_def rejected_def oauth_error_def fire_def pollForToken_def
        pollCatch_def qwenOAuthToken_def setTimeout_def repoll_def is_number.simps(1)
        to_number_def round53_def bitlen.simps Let_def below_limit)

text \<open>
  C5, amended: along any run of polls the interval of a pending poll is never below the
  interval the flow had; a poll whose caught error is \<open>slow_down\<close> sets the next poll
  with \<^verbatim>\<open>interval + 5\<close> as the number arithmetic gives it, due after that interval, and
  this is the interval plus five, a strict increase, for every integer interval whose
  sum with five is below \<open>2^53\<close> in magnitude; in every other case a poll that is set keeps the interval.
\<close>

theorem poll_interval_never_decreases:
  assumes "pending w = [t]"
  shows "(is_number (t_interval t) \<longrightarrow>
            (\<forall>t'\<in>set (pending (polls evs w)). \<not> js_gt (t_interval t) (t_interval t'))) \<and>
         (\<not> js_gt (Num (now ev)) (deviceCodeExpiry (t_env t)) \<and> caught ev = Some e \<and>
          e_error e = Some ''slow_down'' \<longrightarrow>
            pending (fire 0 ev w) =
              [\<lparr>t_env = t_env t, t_deviceCode = t_deviceCode t,
                t_codeVerifier = t_codeVerifier t, t_interval = js_plus (t_interval t) 5,
                t_delay = js_times1000 (js_plus (t_interval t) 5)\<rparr>]) \<and>
         (t_interval t = Num x \<and> \<bar>x + 5\<bar> < 2 ^ 53 \<longrightarrow>
            js_plus (t_interval t) 5 = Num (x + 5) \<and>
            js_gt (js_plus (t_interval t) 5) (t_interval t)) \<and>
         ((\<forall>e'. caught ev = Some e' \<longrightarrow> e_error e' \<noteq> Some ''slow_down'') \<longrightarrow>
            (\<forall>t'\<in>set (pending (fire 0 ev w)).
               t_interval t' = t_interval t \<and> t_delay t' = js_times1000 (t_interval t)))"
proof (intro conjI impI)
  assume "is_number (t_interval t)"
  with assms show "\<forall>t'\<in>set (pending (polls evs w)). \<not> js_gt (t_interval t) (t_interval t')"
    by (rule polls_interval)
next
  assume a: "\<not> js_gt (Num (now ev)) (deviceCodeExpiry (t_env t)) \<and> caught ev = Some e \<and>
          e_error e = Some ''slow_down''"
  then obtain w' where
    "pollForToken (t_env t) (t_deviceCode t) (t_codeVerifier t) (t_interval t) ev
       (w\<lparr>pending := []\<rparr>) =
     pollCatch (t_env t) (t_deviceCode t) (t_codeVerifier t) (t_interval t) e w'"
    "pending w' = pending (w\<lparr>pending := []\<rparr>)"
    using pollForToken_caught [of ev "t_env t" e "t_deviceCode t" "t_codeVerifier t"
        "t_interval t" "w\<lparr>pending := []\<rparr>"] by blast
  with a show "pending (fire 0 ev w) =
              [\<lparr>t_env = t_env t, t_deviceCode = t_deviceCode t,
                t_codeVerifier = t_codeVerifier t, t_interval = js_plus (t_interval t) 5,
                t_delay = js_times1000 (js_plus (t_interval t) 5)\<rparr>]"
    by (simp add: fire_single [OF assms] pollCatch_def setTimeout_def repoll_def)
next
  assume b: "t_interval t = Num x \<and> \<bar>x + 5\<bar> < 2 ^ 53"
  then have "js_plus (Num x) 5 = Num (x + 5)"
    by (intro js_plus_safe) (rule conjunct2)
  with b show "js_plus (t_interval t) 5 = Num (x + 5)"
    and "js_gt (js_plus (t_interval t) 5) (t_interval t)"
    by simp_all
next
  assume a: "\<forall>e'. caught ev = Some e' \<longrightarrow> e_error e' \<noteq> Some ''slow_down''"
  show "\<forall>t'\<in>set (pending (fire 0 ev w)).
               t_interval t' = t_interval t \<and> t_delay t' = js_times1000 (t_interval t)"
  proof (cases "js_gt (Num (now ev)) (deviceCodeExpiry (t_env t))")
    case True
    then show ?thesis
      by (simp add: fire_single [OF assms] pollForToken_expired setStep_def setError_def)
  next
    case live: False
    show ?thesis
    proof (cases "caught ev")
      case None
      then obtain r where "token ev = Inr r" "persist ev = None"
        by (auto simp: caught_def split: sum.splits)
      with live show ?thesis
        by (simp add: fire_single [OF assms] pollForToken_success showSuccess_def
              setStep_def updateSettings_def qwenOAuthToken_def)
    next
      case (Some e')
      with live obtain w' where
        "pollForToken (t_env t) (t_deviceCode t) (t_codeVerifier t) (t_interval t) ev
           (w\<lparr>pending := []\<rparr>) =
         pollCatch (t_env t) (t_deviceCode t) (t_codeVerifier t) (t_interval t) e' w'"
        "pending w' = pending (w\<lparr>pending := []\<rparr>)"
        using pollForToken_caught [of ev "t_env t" e' "t_deviceCode t" "t_codeVerifier t"
            "t_interval t" "w\<lparr>pending := []\<rparr>"] by fastforce
      with a Some show ?thesis
        by (simp add: fire_single [OF assms] pollCatch_def setTimeout_def repoll_def
              setStep_def setError_def)
    qed
  qed
qed

theorem poll_interval_never_decreases_witness:
  "pending (fire 0 (rejected (oauth_error ''slow_down'') 1700000003000) demo_session) =
     [\<lparr>t_env = demo_env, t_deviceCode = ''DC'', t_codeVerifier = ''CV'',
       t_interval = Num 10, t_delay = Num 10000\<rparr>] \<and>
   map t_interval
     (pending (polls [rejected (oauth_error ''slow_down'') 1700000003000,
                      rejected (oauth_error ''authorization_pending'') 1700000013000]
                demo_session)) = [Num 10]"
  using poll_interval_never_decreases
      [of demo_session demo_timer
          "[rejected (oauth_error ''slow_down'') 1700000003000,
            rejected (oauth_error ''authorization_pending'') 1700000013000]"
          "rejected (oauth_error ''slow_down'') 1700000003000" "oauth_error ''slow_down''" 5]
  by (simp add: demo_session_def demo_timer_def demo_env_def initial_dialog_def
        rejected_def oauth_error_def caught_def fire_def pollForToken_def pollCatch_def
        qwenOAuthToken_def setTimeout_def repoll_def to_number_safe)

text \<open>
  C3: a poll whose token request is rejected with a transient error that has no
  \<^verbatim>\<open>error\<close> member is followed by another poll after the same interval, and the state
  cells stay as they were. The error step is entered only on an error that is neither
  \<open>authorization_pending\<close> nor \<open>slow_down\<close> nor such a transient error; with a message
  other than those of the denial and of the expired code, only on an error that is not
  transient at all; and every error that is not transient, not
  \<open>authorization_pending\<close> and not \<open>slow_down\<close> does enter it.
\<close>

theorem transient_error_repolls:
  assumes "pending w = [t]" and "step (ui w) = Step_polling"
    and "\<not> js_gt (Num (now ev)) (deviceCodeExpiry (t_env t))" and "token ev = Inl e"
  shows "(isTransient e \<and> e_error e = None \<longrightarrow>
            ui (fire 0 ev w) = ui w \<and> stored (fire 0 ev w) = stored w \<and>
            pending (fire 0 ev w) =
              [\<lparr>t_env = t_env t, t_deviceCode = t_deviceCode t,
                t_codeVerifier = t_codeVerifier t, t_interval = t_interval t,
                t_delay = js_times1000 (t_interval t)\<rparr>]) \<and>
         (step (ui (fire 0 ev w)) = Step_error \<longrightarrow>
            e_error e \<noteq> Some ''authorization_pending'' \<and> e_error e \<noteq> Some ''slow_down'' \<and>
            \<not> (isTransient e \<and> e_error e = None)) \<and>
         (step (ui (fire 0 ev w)) = Step_error \<and>
          error (ui (fire 0 ev w)) \<noteq> ''Authentication was denied. Please try again.'' \<and>
          error (ui (fire 0 ev w)) \<noteq>
            ''The authentication code has expired. Please try again.'' \<longrightarrow>
            \<not> isTransient e \<and>
            e_error e \<noteq> Some ''authorization_pending'' \<and> e_error e \<noteq> Some ''slow_down'') \<and>
         (\<not> isTransient e \<and> e_error e \<noteq> Some ''authorization_pending'' \<and>
          e_error e \<noteq> Some ''slow_down'' \<longrightarrow>
            step (ui (fire 0 ev w)) = Step_error \<and> pending (fire 0 ev w) = [])"
proof -
  have f: "fire 0 ev w =
      pollCatch (t_env t) (t_deviceCode t) (t_codeVerifier t) (t_interval t) e
        (qwenOAuthToken (t_deviceCode t) (t_codeVerifier t) (w\<lparr>pending := []\<rparr>))"
    using assms by (simp add: fire_single pollForToken_failed)
  show ?thesis
    unfolding f using assms(2)
    by (simp add: pollCatch_def setTimeout_def setStep_def setError_def qwenOAuthToken_def
          repoll_def)
qed

theorem transient_error_repolls_witness:
  "pending (fire 0 (rejected (new_Error ''fetch failed'') 1700000003000) demo_session) =
     [\<lparr>t_env = demo_env, t_deviceCode = ''DC'', t_codeVerifier = ''CV'', t_interval = Num 5,
       t_delay = Num 5000\<rparr>] \<and>
   ui (fire 0 (rejected (new_Error ''fetch failed'') 1700000003000) demo_session) =
     ui demo_session \<and>
   step (ui (fire 0 (rejected (oauth_error ''invalid_grant'') 1700000003000) demo_session)) =
     Step_error \<and>
   pending (fire 0 (rejected (oauth_error ''invalid_grant'') 1700000003000) demo_session) = []"
  using transient_error_repolls
      [of demo_session demo_timer "rejected (new_Error ''fetch failed'') 1700000003000"
          "new_Error ''fetch failed''"]
    transient_error_repolls
      [of demo_session demo_timer "rejected (oauth_error ''invalid_grant'') 1700000003000"
          "oauth_error ''invalid_grant''"]
  by (simp add: demo_session_def demo_timer_def demo_env_def initial_dialog_def
        rejected_def oauth_error_def new_Error_def isTransient_def message_includes_def
        to_number_safe)

text \<open>
  C8, as stated, fails when \<^verbatim>\<open>updateSettings\<close> throws: the error reaches the catch block
  of the polls, and with \<open>network\<close> in its message the flow stays in the polling step
  and sets the next poll. And for \<open>expires_in\<close> of 100000000000000000 seconds the
  expiry handed over is not the clock plus that many seconds, but the sum rounded.
\<close>

theorem token_success_counterexample:
  "step (ui (fire 0 \<lparr>now = 1700000003000, token = Inr demo_token,
                       now_stored = 1700000003500,
                       persist = Some (new_Error ''network write failed'')\<rparr>
               demo_session)) = Step_polling \<and>
   map t_delay (pending (fire 0 \<lparr>now = 1700000003000, token = Inr demo_token,
                                now_stored = 1700000003500,
                                persist = Some (new_Error ''network write failed'')\<rparr>
                           demo_session)) = [Num 5000] \<and>
   map qwenTokenExpiry
     (stored (fire 0 \<lparr>now = 1700000003000,
                       token = Inr (demo_token\<lparr>tok_expires_in := Num 100000000000000000\<rparr>),
                       now_stored = 1700000003500, persist = None\<rparr> demo_session)) =
     [Num 100000001700000006144]"
  by (simp add: demo_session_def demo_timer_def demo_env_def initial_dialog_def
        demo_token_def new_Error_def fire_def pollForToken_def pollCatch_def isTransient_def
        message_includes_def qwenOAuthToken_def updateSettings_def setTimeout_def
        setStep_def showSuccess_def repoll_def
        to_number_def round53_def bitlen.simps Let_def below_limit)

text \<open>
  C8, amended: a poll that passes the expiry test and is answered with a token response
  hands over exactly one record to \<^verbatim>\<open>updateSettings\<close>: the access token, the refresh
  token or the empty string, \<^verbatim>\<open>Date.now() + expires_in * 1000\<close> as the number
  arithmetic gives it (the clock plus \<open>expires_in\<close> seconds, in milliseconds, whenever
  product and sum are below \<open>2^53\<close> in magnitude), and the resource URL or the
  DashScope URL. When \<^verbatim>\<open>updateSettings\<close> completes, the flow enters the success step (no
  other state cell changes: the component keeps nothing of the credential) and sets no
  timer.
\<close>

theorem token_success_hands_over_credential:
  assumes "pending w = [t]" and "\<not> js_gt (Num (now ev)) (deviceCodeExpiry (t_env t))"
    and "token ev = Inr r"
  shows "stored (fire 0 ev w) = stored w @
           [\<lparr>qwenAccessToken = access_token r,
             qwenRefreshToken = (case refresh_token r of None \<Rightarrow> [] | Some s \<Rightarrow> s),
             qwenTokenExpiry = js_plus (js_times1000 (tok_expires_in r)) (now_stored ev),
             qwenResourceUrl =
               (case resource_url r of
                  None \<Rightarrow> ''https://dashscope.aliyuncs.com/api/v1/''
                | Some u \<Rightarrow> if u = [] then ''https://dashscope.aliyuncs.com/api/v1/'' else u)\<rparr>] \<and>
         (tok_expires_in r = Num x \<and> \<bar>x * 1000\<bar> < 2 ^ 53 \<and>
          \<bar>x * 1000 + now_stored ev\<bar> < 2 ^ 53 \<longrightarrow>
            js_plus (js_times1000 (tok_expires_in r)) (now_stored ev) =
              Num (now_stored ev + x * 1000)) \<and>
         (persist ev = None \<longrightarrow>
            step (ui (fire 0 ev w)) = Step_success \<and>
            ui (fire 0 ev w) = (ui w)\<lparr>step := Step_success\<rparr> \<and>
            pending (fire 0 ev w) = [])"
proof (intro conjI impI)
  show "stored (fire 0 ev w) = stored w @
           [\<lparr>qwenAccessToken = access_token r,
             qwenRefreshToken = (case refresh_token r of None \<Rightarrow> [] | Some s \<Rightarrow> s),
             qwenTokenExpiry = js_plus (js_times1000 (tok_expires_in r)) (now_stored ev),
             qwenResourceUrl =
               (case resource_url r of
                  None \<Rightarrow> ''https://dashscope.aliyuncs.com/api/v1/''
                | Some u \<Rightarrow> if u = [] then ''https://dashscope.aliyuncs.com/api/v1/'' else u)\<rparr>]"
    using assms
    by (cases "persist ev")
       (simp_all add: fire_single pollForToken_def pollCatch_stored showSuccess_def
          setStep_def updateSettings_def qwenOAuthToken_def js_or_default_def
          split: option.split)
next
  assume b: "tok_expires_in r = Num x \<and> \<bar>x * 1000\<bar> < 2 ^ 53 \<and>
          \<bar>x * 1000 + now_stored ev\<bar> < 2 ^ 53"
  then have p: "\<bar>x * 1000\<bar> < 2 ^ 53" and s: "\<bar>x * 1000 + now_stored ev\<bar> < 2 ^ 53"
    by blast+
  have "to_number (x * 1000) = Num (x * 1000)"
    using p by (rule to_number_safe)
  moreover have "to_number (x * 1000 + now_stored ev) = Num (x * 1000 + now_stored ev)"
    using s by (rule to_number_safe)
  ultimately
  show "js_plus (js_times1000 (tok_expires_in r)) (now_stored ev) =
              Num (now_stored ev + x * 1000)"
    using b by (simp add: add.commute)
next
  assume p: "persist ev = None"
  with assms show "step (ui (fire 0 ev w)) = Step_success"
    by (simp add: fire_single pollForToken_success showSuccess_def setStep_def
          updateSettings_def qwenOAuthToken_def)
  from p assms show "ui (fire 0 ev w) = (ui w)\<lparr>step := Step_success\<rparr>"
    by (simp add: fire_single pollForToken_success showSuccess_def setStep_def
          updateSettings_def qwenOAuthToken_def)
  from p assms show "pending (fire 0 ev w) = []"
    by (simp add: fire_single pollForToken_success showSuccess_def setStep_def
          updateSettings_def qwenOAuthToken_def)
qed

theorem token_success_hands_over_credential_witness:
  "step (ui (fire 0 \<lparr>now = 1700000003000, token = Inr demo_token,
                       now_stored = 1700000003500, persist = None\<rparr> demo_session)) =
     Step_success \<and>
   stored (fire 0 \<lparr>now = 1700000003000, token = Inr demo_token,
                    now_stored = 1700000003500, persist = None\<rparr> demo_session) =
     [\<lparr>qwenAccessToken = ''AT'', qwenRefreshToken = [],
       qwenTokenExpiry = Num 1700003603500,
       qwenResourceUrl = ''https://dashscope.aliyuncs.com/api/v1/''\<rparr>]"
  using token_success_hands_over_credential
      [of demo_session demo_timer
          "\<lparr>now = 1700000003000, token = Inr demo_token, now_stored = 1700000003500,
            persist = None\<rparr>" demo_token 3600]
  by (simp add: demo_session_def demo_timer_def demo_env_def initial_dialog_def demo_token_def
        to_number_safe)

section \<open>The shorter revision of the polling function\<close>

text \<open>
  The shorter revision never reads the clock, treats \<open>authorization_pending\<close>,
  \<open>slow_down\<close> and a token response as the other one does, and enters the error step
  on every other error, transient or not.
\<close>

lemma rev0_ignores_clock:
  "pollForToken0 env d c i (ev\<lparr>now := n\<rparr>) w = pollForToken0 env d c i ev w"
  by (simp add: pollForToken0_def Let_def split: sum.split option.split)

lemma rev0_failed:
  "token ev = Inl e \<Longrightarrow>
   pollForToken0 env d c i ev w = pollCatch0 env d c i e (qwenOAuthToken d c w)"
  by (simp add: pollForToken0_def)

lemma rev0_pending:
  "token ev = Inl e \<Longrightarrow> e_error e = Some ''authorization_pending'' \<Longrightarrow>
   pollForToken0 env d c i ev w = setTimeout (repoll env d c i) (qwenOAuthToken d c w)"
  by (simp add: rev0_failed pollCatch0_def)

lemma rev0_slow_down:
  "token ev = Inl e \<Longrightarrow> e_error e = Some ''slow_down'' \<Longrightarrow>
   pollForToken0 env d c i ev w = setTimeout (repoll env d c (js_plus i 5)) (qwenOAuthToken d c w)"
  by (simp add: rev0_failed pollCatch0_def)

lemma rev0_other_error_is_terminal:
  "token ev = Inl e \<Longrightarrow> e_error e \<noteq> Some ''authorization_pending'' \<Longrightarrow>
   e_error e \<noteq> Some ''slow_down'' \<Longrightarrow>
   step (ui (pollForToken0 env d c i ev w)) = Step_error \<and>
   pending (pollForToken0 env d c i ev w) = pending w \<and>
   stored (pollForToken0 env d c i ev w) = stored w"
  by (simp add: rev0_failed pollCatch0_def setStep_def setError_def qwenOAuthToken_def)

lemma rev0_success:
  "token ev = Inr r \<Longrightarrow> persist ev = None \<Longrightarrow>
   step (ui (pollForToken0 env d c i ev w)) = Step_success \<and>
   pending (pollForToken0 env d c i ev w) = pending w \<and>
   stored (pollForToken0 env d c i ev w) = stored w @
     [\<lparr>qwenAccessToken = access_token r,
       qwenRefreshToken = js_or_default (refresh_token r) [],
       qwenTokenExpiry = js_plus (js_times1000 (tok_expires_in r)) (now_stored ev),
       qwenResourceUrl = js_or_default (resource_url r)
          ''https://dashscope.aliyuncs.com/api/v1/''\<rparr>]"
  by (simp add: pollForToken0_def showSuccess_def setStep_def updateSettings_def
        qwenOAuthToken_def)

section \<open>The expiry test reads a stale cell\<close>

text \<open>
  C2: the expiry that \<^verbatim>\<open>pollForToken\<close> tests is the one its closure holds, not the one
  \<^verbatim>\<open>startOAuthFlow\<close> has just set. In the first flow after mounting it is 0: the first
  poll reports a timeout although the device code is valid until 1700001800000 ms, and
  no token request is made. In the second flow it is the expiry of the first,
  1700001800000 ms, while the second device code expires at 1700000070000 ms: the poll at
  1700000073000 ms still sends a token request and sets the next poll.
\<close>

theorem stale_expiry_polls_after_advertised_expiry:
  "deviceCodeExpiry (ui (clickStart first_flow initial_world)) = Num 1700001800000 \<and>
   step (ui after_first_flow) = Step_error \<and>
   error (ui after_first_flow) = timed_out_message \<and>
   requests after_first_flow = [] \<and>
   deviceCodeExpiry (ui second_session) = Num 1700000070000 \<and>
   map (deviceCodeExpiry \<circ> t_env) (pending second_session) = [Num 1700001800000] \<and>
   length (requests second_session_polled) = 12 \<and>
   requests (fire 0 (rejected (oauth_error ''authorization_pending'') 1700000073000)
               second_session_polled) =
     requests second_session_polled @ [\<lparr>p_deviceCode = ''DC2'', p_codeVerifier = ''CV2''\<rparr>] \<and>
   step (ui (fire 0 (rejected (oauth_error ''authorization_pending'') 1700000073000)
               second_session_polled)) = Step_polling \<and>
   map t_delay (pending (fire 0 (rejected (oauth_error ''authorization_pending'') 1700000073000)
               second_session_polled)) = [Num 5000]"
  by (simp add: second_session_polled_def second_session_def after_first_flow_def
        first_flow_def second_flow_def clickStart_def clickTryAgain_def startOAuthFlow_def
        fire_def pollForToken_def pollCatch_def initial_world_def initial_dialog_def
        rejected_def oauth_error_def setTimeout_def setStep_def setError_def
        qwenOAuthToken_def repoll_def timed_out_message_def to_number_safe)

section \<open>The handlers and the verifier\<close>

lemma demo_verifier: "generateCodeVerifier demo_random = ''-__-AAECAwQFBgcICQoLDA0ODxAREhMUFRYXGBkaGxw''"
  by (simp add: generateCodeVerifier_def btoa_def fromCharCode_def demo_random_def
        b64_alphabet_def replace_all_def remove_all_def)

lemma demo_verifier_url: "base64url demo_random = ''-__-AAECAwQFBgcICQoLDA0ODxAREhMUFRYXGBkaGxw''"
  using demo_verifier by (simp add: generateCodeVerifier_def btoa_url)

text \<open>
  C9: a successful result of the device-code handler is the parsed response with the
  member \<open>code_verifier\<close> set to the verifier generated in this call, the base64url
  encoding of its random bytes; the challenge in the request is the base64url encoding of
  the digest of exactly this verifier; the declared interface has no such field; the
  dialog reads this verifier from the result, and every token request of the flow it
  starts carries it (the first poll sends one unless the expiry test stops it).
\<close>

theorem device_code_result_carries_verifier:
  assumes "deviceCodeHandler random response = Inr result"
  shows "result ''code_verifier'' = Some (JString (base64url random)) \<and>
         (\<exists>status statusText data. response = Response status statusText (Inr data) \<and>
            (\<forall>k. k \<noteq> ''code_verifier'' \<longrightarrow> result k = data k)) \<and>
         map_of (body (deviceCodeRequest digest random)) ''code_challenge'' =
           Some (base64url (digest (encode (base64url random)))) \<and>
         ''code_verifier'' \<notin> set QwenDeviceCodeResponse \<and>
         code_verifier (as_device_code_result result) = base64url random \<and>
         (device sev = Inr (as_device_code_result result) \<and> opened sev = None \<and>
          pending w = [] \<longrightarrow>
            requests (fire 0 pe (clickStart sev w)) =
              (if js_gt (Num (now pe)) (deviceCodeExpiry (ui w)) then requests w
               else requests w @
                      [\<lparr>p_deviceCode = device_code (as_device_code_result result),
                        p_codeVerifier = base64url random\<rparr>]) \<and>
            (\<exists>n. requests (polls evs (clickStart sev w)) =
                   requests w @
                     replicate n \<lparr>p_deviceCode = device_code (as_device_code_result result),
                                  p_codeVerifier = base64url random\<rparr>)) \<and>
         map_of (body (tokenRequest dCode (base64url random))) ''code_verifier'' =
           Some (base64url random)"
proof -
  have gv: "generateCodeVerifier random = base64url random"
    by (simp add: generateCodeVerifier_def btoa_url)
  from assms obtain status statusText data where
    r: "response = Response status statusText (Inr data)"
    and res: "result = data(''code_verifier'' \<mapsto> JString (base64url random))"
    by (auto simp: deviceCodeHandler_def Let_def gv split: fetched.splits sum.splits if_splits)
  have v: "code_verifier (as_device_code_result result) = base64url random"
    by (simp add: res as_device_code_result_def str_or_empty_def str_member_def)
  have ch: "map_of (body (deviceCodeRequest digest random)) ''code_challenge'' =
           Some (base64url (digest (encode (base64url random))))"
    by (simp add: deviceCodeRequest_def generateCodeChallenge_def btoa_url gv)
  have flow: "requests (fire 0 pe (clickStart sev w)) =
              (if js_gt (Num (now pe)) (deviceCodeExpiry (ui w)) then requests w
               else requests w @
                      [\<lparr>p_deviceCode = device_code (as_device_code_result result),
                        p_codeVerifier = base64url random\<rparr>]) \<and>
            (\<exists>n. requests (polls evs (clickStart sev w)) =
                   requests w @
                     replicate n \<lparr>p_deviceCode = device_code (as_device_code_result result),
                                  p_codeVerifier = base64url random\<rparr>)"
    if "device sev = Inr (as_device_code_result result) \<and> opened sev = None \<and> pending w = []"
  proof -
    from that have s: "device sev = Inr (as_device_code_result result)" "opened sev = None"
      "pending w = []" by simp_all
    note c = clickStart_polling [OF s]
    have one: "requests (fire 0 pe (clickStart sev w)) =
              (if js_gt (Num (now pe)) (deviceCodeExpiry (ui w)) then requests w
               else requests w @
                      [\<lparr>p_deviceCode = device_code (as_device_code_result result),
                        p_codeVerifier = base64url random\<rparr>])"
      using fire_requests [OF c(1), of pe] c(2) by (simp add: v)
    from polls_requests [OF c(1), of evs] c(2) v
    have "\<exists>n. requests (polls evs (clickStart sev w)) =
                   requests w @
                     replicate n \<lparr>p_deviceCode = device_code (as_device_code_result result),
                                  p_codeVerifier = base64url random\<rparr>"
      by simp
    with one show ?thesis by simp
  qed
  show ?thesis
    using r res v ch flow
    by (simp add: tokenRequest_def QwenDeviceCodeResponse_def)
qed

theorem device_code_result_carries_verifier_witness:
  "deviceCodeHandler demo_random (Response 200 ''OK'' (Inr demo_device_data)) =
     Inr (demo_device_data
            (''code_verifier'' \<mapsto> JString ''-__-AAECAwQFBgcICQoLDA0ODxAREhMUFRYXGBkaGxw'')) \<and>
   base64url demo_random = ''-__-AAECAwQFBgcICQoLDA0ODxAREhMUFRYXGBkaGxw'' \<and>
   requests (fire 0 (rejected (oauth_error ''authorization_pending'') 1700000003000)
               (clickStart demo_start (demo_session\<lparr>pending := []\<rparr>))) =
     [\<lparr>p_deviceCode = ''DC'',
       p_codeVerifier = ''-__-AAECAwQFBgcICQoLDA0ODxAREhMUFRYXGBkaGxw''\<rparr>]"
  using device_code_result_carries_verifier
      [where random = demo_random
         and response = "Response 200 ''OK'' (Inr demo_device_data)"
         and result = "demo_device_data
            (''code_verifier'' \<mapsto> JString ''-__-AAECAwQFBgcICQoLDA0ODxAREhMUFRYXGBkaGxw'')"
         and sev = demo_start and w = "demo_session\<lparr>pending := []\<rparr>"
         and pe = "rejected (oauth_error ''authorization_pending'') 1700000003000"]
  by (simp add: deviceCodeHandler_def ok_def demo_verifier demo_verifier_url demo_start_def
        demo_session_def demo_env_def initial_dialog_def rejected_def
        as_device_code_result_def str_or_empty_def str_member_def demo_device_data_def
        to_number_safe)

text \<open>
  C10: on status 400 the token handler throws the parsed body, whose \<open>error\<close> member is
  what the dialog reads; on any other status outside 200 to 299 it throws an Error made of
  the status and the status text; and whenever it throws something that is not an Error,
  or that has an \<open>error\<close> member, the status was 400 and the thrown value is the parsed
  body.
\<close>

theorem token_error_body_only_from_400:
  "tokenHandler (Response 400 text400 (Inr errorData)) = Inl (as_thrown errorData) \<and>
   e_error (as_thrown errorData) = str_member errorData ''error'' \<and>
   (\<not> ok status \<and> status \<noteq> 400 \<longrightarrow>
      tokenHandler (Response status statusText js) =
        Inl (new_Error (''Token request failed: '' @ decimal status @ '' '' @ statusText))) \<and>
   (tokenHandler response = Inl e \<and> (\<not> isError e \<or> e_error e \<noteq> None) \<longrightarrow>
      (\<exists>st d. response = Response 400 st (Inr d) \<and> e = as_thrown d))"
  by (cases response)
     (auto simp: tokenHandler_def ok_def as_thrown_def new_Error_def platform_Error_def
           split: sum.splits if_splits)

theorem token_error_body_only_from_400_witness:
  "tokenHandler (Response 400 ''Bad Request''
                   (Inr (map_of [(''error'', JString ''authorization_pending'')]))) =
     Inl (oauth_error ''authorization_pending'') \<and>
   tokenHandler (Response 503 ''Service Unavailable'' (Inl ''Unexpected token'')) =
     Inl (new_Error ''Token request failed: 503 Service Unavailable'')"
  using token_error_body_only_from_400
      [of "''Bad Request''" "map_of [(''error'', JString ''authorization_pending'')]" 503
          "''Service Unavailable''" "Inl ''Unexpected token''"
          "Response 400 ''Bad Request''
             (Inr (map_of [(''error'', JString ''authorization_pending'')]))"
          "oauth_error ''authorization_pending''"]
  by (simp add: ok_def oauth_error_def as_thrown_def str_member_def decimal.simps)

section \<open>The path check of the Action Validator\<close>

text \<open>
  C1, as stated, fails on \<open>a/../b\<close> under the root \<open>/proj\<close>: the path has a \<open>..\<close>
  segment, so it is rejected, and it resolves to \<open>/proj/b\<close>, strictly inside the root.
\<close>

theorem dotdot_inside_root_counterexample:
  "has_dotdot ''a/../b'' \<and> strictly_inside ''/proj'' ''a/../b'' \<and>
   validatePath ''/proj'' ''a/../b'' = Inl PathEscape"
  by (simp add: has_dotdot_def strictly_inside_def within_root_def resolve_def is_absolute_def
        validatePath_def)

text \<open>
  C1, amended: the check rejects a path that has a \<open>..\<close> segment or that resolves to a
  location outside the root, and accepts a path without \<open>..\<close> segment that resolves
  strictly inside the root.
\<close>

theorem path_check_rejects_escape_accepts_inside:
  "(has_dotdot p \<or> \<not> within_root root p \<longrightarrow> validatePath root p = Inl PathEscape) \<and>
   (\<not> has_dotdot p \<and> strictly_inside root p \<longrightarrow> validatePath root p = Inr (resolve root p))"
  by (simp add: validatePath_def strictly_inside_def)

theorem path_check_rejects_escape_accepts_inside_witness:
  "validatePath ''/proj'' ''../etc/passwd'' = Inl PathEscape \<and>
   validatePath ''/proj'' ''/etc/passwd'' = Inl PathEscape \<and>
   validatePath ''/proj'' ''src/a.ts'' = Inr [''proj'', ''src'', ''a.ts'']"
  using path_check_rejects_escape_accepts_inside [of "''../etc/passwd''" "''/proj''"]
    path_check_rejects_escape_accepts_inside [of "''/etc/passwd''" "''/proj''"]
    path_check_rejects_escape_accepts_inside [of "''src/a.ts''" "''/proj''"]
  by (simp add: has_dotdot_def strictly_inside_def within_root_def resolve_def is_absolute_def)

end
